theory Spec2Isabelle
  imports
    Complex_Main
    "HOL-Library.Multiset"
    "HOL-Library.Char_ord"
    "HOL-Library.List_Lexorder"
    "HOL-Library.Sublist"
    "HOL-Library.Word"
begin

section \<open>Data model (types.ts)\<close>

text \<open>
  Strings are byte strings (the UTF-8 encoding of the JavaScript string). Numbers that
  the program uses as integers (order, timestamps, counts) are \<open>int\<close>.
  The interface declares \<open>order: number\<close>, yet the storage layer and the import path
  test for a record without a numeric \<open>order\<close> (records written before the field
  existed), so the field is optional here: \<open>None\<close> is a missing field
  (\<open>undefined\<close>).
\<close>

datatype CollectionStatus = IDEATION | IN_PROGRESS | ARCHIVED

datatype SetType = Sticker | Emoji

record StickerItem =
  item_id :: string
  originalOrder :: int
  name :: string
  imageUrl :: "string option"

record StickerSet =
  set_id :: string
  order :: "int option"
  title :: string
  enTitle :: string
  series :: string
  zhDesc :: string
  enDesc :: string
  storeUrl :: string
  status :: CollectionStatus
  type' :: SetType
  itemCount :: int
  createdAt :: int
  items :: "StickerItem list"

section \<open>JavaScript built-ins used by the program\<close>

text \<open>
  \<open>Array.prototype.sort(cmp)\<close> is stable and, when \<open>cmp\<close> is a consistent
  ordering of the elements, returns them ordered by it. It is modelled by a stable
  insertion sort: an element goes before the first later element that does not
  compare smaller than it. Where \<open>cmp\<close> is not a consistent ordering the language
  leaves the result to the engine; no theorem below depends on such an input.
\<close>

fun insert_by :: "('a \<Rightarrow> 'a \<Rightarrow> int) \<Rightarrow> 'a \<Rightarrow> 'a list \<Rightarrow> 'a list" where
  "insert_by cmp x [] = [x]"
| "insert_by cmp x (y # ys) =
     (if cmp x y \<le> 0 then x # y # ys else y # insert_by cmp x ys)"

definition array_sort :: "('a \<Rightarrow> 'a \<Rightarrow> int) \<Rightarrow> 'a list \<Rightarrow> 'a list" where
  "array_sort cmp xs = foldr (insert_by cmp) xs []"

text \<open>\<open>xs.findIndex(p)\<close>: the first index whose element satisfies \<open>p\<close>;
  \<open>None\<close> stands for the result \<open>-1\<close>.\<close>

fun findIndex :: "('a \<Rightarrow> bool) \<Rightarrow> 'a list \<Rightarrow> nat option" where
  "findIndex p [] = None"
| "findIndex p (x # xs) =
     (if p x then Some 0 else map_option Suc (findIndex p xs))"

text \<open>\<open>s.order || 0\<close>: a missing order and the order \<open>0\<close> both give \<open>0\<close>.\<close>

definition order_or_0 :: "StickerSet \<Rightarrow> int" where
  "order_or_0 s = (case order s of None \<Rightarrow> 0 | Some n \<Rightarrow> n)"

section \<open>Local store (services/storage)\<close>

subsection \<open>The object store\<close>

text \<open>
  The object store \<open>sticker_sets\<close> has key path \<open>id\<close>: it holds at most one record
  per id and lists its records in ascending key order. \<open>store.put\<close> inserts a record
  or overwrites the record with the same id.
\<close>

type_synonym object_store = "StickerSet list"

fun store_put :: "StickerSet \<Rightarrow> object_store \<Rightarrow> object_store" where
  "store_put s [] = [s]"
| "store_put s (x # xs) =
     (if set_id s = set_id x then s # xs
      else if set_id s < set_id x then s # x # xs
      else x # store_put s xs)"

definition store_delete :: "string \<Rightarrow> object_store \<Rightarrow> object_store" where
  "store_delete i db = filter (\<lambda>s. set_id s \<noteq> i) db"

definition store_clear :: "object_store \<Rightarrow> object_store" where
  "store_clear db = []"

text \<open>The puts of a list of records, in order.\<close>

definition put_all :: "StickerSet list \<Rightarrow> object_store \<Rightarrow> object_store" where
  "put_all xs db = fold store_put xs db"

text \<open>
  The arrays that reach the storage functions are typed as records but may come from
  an imported file: an element is a record with its id, or another value without an
  id to serve as key, for which \<open>store.put\<close> throws (a \<open>DataError\<close>), or \<open>null\<close>, for
  which it throws as well and of which no property can be read. Ids are strings, as
  the interface declares.
\<close>

datatype element = Keyed StickerSet | Unkeyed | Nullish

text \<open>\<open>sets.forEach(set => store.put(set))\<close>: the store with the puts made, and whether
  a put threw, which ends the loop.\<close>

fun put_each :: "element list \<Rightarrow> object_store \<Rightarrow> object_store \<times> bool" where
  "put_each [] db = (db, False)"
| "put_each (Keyed s # es) db = put_each es (store_put s db)"
| "put_each (Unkeyed # es) db = (db, True)"
| "put_each (Nullish # es) db = (db, True)"

definition store_ok :: "object_store \<Rightarrow> bool" where
  "store_ok db = sorted_wrt (<) (map set_id db)"

subsection \<open>Transactions and promises\<close>

text \<open>
  Every storage function opens one transaction, issues its requests and returns a
  promise that its event handlers settle. The events of the transaction are the input
  of the model: a success or an error of one request, and the completion or the abort
  of the transaction. An error event of a request bubbles to the transaction's
  \<open>onerror\<close>; no handler of the program calls \<open>preventDefault\<close>, so the first error
  aborts the transaction. The writes of a transaction reach the store when it
  completes, and never when it aborts; a transaction opened later runs after it.
\<close>

datatype idb_event = RequestSuccess | RequestError | TransactionComplete | TransactionAbort

datatype promise = Pending | Resolved | Rejected

definition resolve :: "promise \<Rightarrow> promise" where
  "resolve p = (if p = Pending then Resolved else p)"

definition reject :: "promise \<Rightarrow> promise" where
  "reject p = (if p = Pending then Rejected else p)"

text \<open>The transaction commits when its completion comes before any error or abort.\<close>

fun tx_commits :: "idb_event list \<Rightarrow> bool" where
  "tx_commits [] = False"
| "tx_commits (RequestSuccess # es) = tx_commits es"
| "tx_commits (TransactionComplete # es) = True"
| "tx_commits (RequestError # es) = False"
| "tx_commits (TransactionAbort # es) = False"

text \<open>The events that reach the handlers: those up to the end of the transaction.
  After the first error only further errors and the abort follow, which settle nothing
  that the error has not settled.\<close>

fun delivered :: "idb_event list \<Rightarrow> idb_event list" where
  "delivered [] = []"
| "delivered (RequestSuccess # es) = RequestSuccess # delivered es"
| "delivered (TransactionComplete # es) = [TransactionComplete]"
| "delivered (RequestError # es) = [RequestError]"
| "delivered (TransactionAbort # es) = [TransactionAbort]"

record save_result =
  settled :: promise
  stored :: object_store

subsection \<open>saveStickerSets, src/services/storage.ts lines 41-71\<close>

text \<open>
  The handler state is the pair of the counters \<open>completed\<close> and \<open>errors\<close> and the
  promise. \<open>request.onsuccess\<close> counts and resolves at the last request;
  \<open>request.onerror\<close> sets \<open>errors\<close> and the event then reaches
  \<open>transaction.onerror\<close>, which rejects; \<open>transaction.oncomplete\<close> resolves unless
  \<open>errors\<close> is set. Nothing listens to the abort.
\<close>

record save_handlers =
  completed :: nat
  errors :: bool
  outcome :: promise

fun saveStickerSets_on :: "nat \<Rightarrow> idb_event \<Rightarrow> save_handlers \<Rightarrow> save_handlers" where
  "saveStickerSets_on n RequestSuccess h =
     (let c = completed h + 1
      in h\<lparr>completed := c, outcome := (if c = n then resolve (outcome h) else outcome h)\<rparr>)"
| "saveStickerSets_on n RequestError h =
     h\<lparr>errors := True, outcome := reject (outcome h)\<rparr>"
| "saveStickerSets_on n TransactionComplete h =
     (if \<not> errors h then h\<lparr>outcome := resolve (outcome h)\<rparr> else h)"
| "saveStickerSets_on n TransactionAbort h = h"

text \<open>A put that throws leaves the executor of the promise, which rejects it; the
  puts made before it stay in the transaction.\<close>

definition saveStickerSets :: "element list \<Rightarrow> idb_event list \<Rightarrow> object_store \<Rightarrow> save_result" where
  "saveStickerSets xs evs db =
     (if length xs = 0 then \<lparr>settled = Resolved, stored = db\<rparr>
      else case put_each xs db of
        (written, True) \<Rightarrow>
          \<lparr>settled = Rejected, stored = (if tx_commits evs then written else db)\<rparr>
      | (written, False) \<Rightarrow>
          \<lparr>settled = outcome (fold (saveStickerSets_on (length xs)) (delivered evs)
                \<lparr>completed = 0, errors = False, outcome = Pending\<rparr>),
           stored = (if tx_commits evs then written else db)\<rparr>)"

subsection \<open>The later storage module (src/unnamed/part_004)\<close>

text \<open>
  Its writing functions settle on the transaction only: \<open>transaction.oncomplete\<close>
  resolves, \<open>transaction.onerror\<close> (reached by the error of a request) rejects.
\<close>

fun on_transaction :: "idb_event \<Rightarrow> promise \<Rightarrow> promise" where
  "on_transaction TransactionComplete p = resolve p"
| "on_transaction RequestError p = reject p"
| "on_transaction RequestSuccess p = p"
| "on_transaction TransactionAbort p = p"

text \<open>saveStickerSets, part_004 lines 40-65. A put that throws rejects the promise
  before the handlers of the transaction are set.\<close>

definition saveStickerSets_tx :: "element list \<Rightarrow> idb_event list \<Rightarrow> object_store \<Rightarrow> save_result" where
  "saveStickerSets_tx xs evs db =
     (if length xs = 0 then \<lparr>settled = Resolved, stored = db\<rparr>
      else case put_each xs db of
        (written, True) \<Rightarrow>
          \<lparr>settled = Rejected, stored = (if tx_commits evs then written else db)\<rparr>
      | (written, False) \<Rightarrow>
          \<lparr>settled = fold on_transaction (delivered evs) Pending,
           stored = (if tx_commits evs then written else db)\<rparr>)"

text \<open>deleteStickerSet, part_004 lines 88-98.\<close>

definition deleteStickerSet :: "string \<Rightarrow> idb_event list \<Rightarrow> object_store \<Rightarrow> save_result" where
  "deleteStickerSet i evs db =
     \<lparr>settled = fold on_transaction (delivered evs) Pending,
      stored = (if tx_commits evs then store_delete i db else db)\<rparr>"

text \<open>clearAllStickerSets, part_004 lines 100-111.\<close>

definition clearAllStickerSets :: "idb_event list \<Rightarrow> object_store \<Rightarrow> save_result" where
  "clearAllStickerSets evs db =
     \<lparr>settled = fold on_transaction (delivered evs) Pending,
      stored = (if tx_commits evs then store_clear db else db)\<rparr>"

subsection \<open>getAllStickerSets\<close>

text \<open>
  The comparator of lines 83-88 (77-82 in part_004): by \<open>order\<close> when both records
  have one, by \<open>createdAt\<close>, newest first, otherwise.
\<close>

definition getAll_compare :: "StickerSet \<Rightarrow> StickerSet \<Rightarrow> int" where
  "getAll_compare a b =
     (case (order a, order b) of
        (Some oa, Some ob) \<Rightarrow> oa - ob
      | _ \<Rightarrow> createdAt b - createdAt a)"

text \<open>The value that \<open>request.onsuccess\<close> resolves with.\<close>

definition getAll_sorted :: "object_store \<Rightarrow> StickerSet list" where
  "getAll_sorted db = array_sort getAll_compare db"

fun on_request :: "idb_event \<Rightarrow> promise \<Rightarrow> promise" where
  "on_request RequestSuccess p = resolve p"
| "on_request RequestError p = reject p"
| "on_request TransactionComplete p = p"
| "on_request TransactionAbort p = p"

definition getAllStickerSets :: "idb_event list \<Rightarrow> object_store \<Rightarrow> promise \<times> StickerSet list" where
  "getAllStickerSets evs db = (fold on_request (delivered evs) Pending, getAll_sorted db)"

section \<open>Dashboard handlers (src/unnamed/part_000, the App component)\<close>

text \<open>
  The component state that the handlers below read and write: the listing \<open>sets\<close>,
  the reorder selection \<open>swapSourceId\<close> (\<open>None\<close> is \<open>null\<close>), together with the
  object store and the dialogs shown by \<open>alert\<close>. The component imports the storage
  module that exports \<open>clearAllStickerSets\<close> (part_004). Each handler receives the
  events that the database delivers to the transactions it opens. A handler whose
  awaited promise stays pending does not continue; one whose awaited promise is
  rejected continues in its \<open>catch\<close> block, if it has one.
\<close>

datatype alert =
    SwapSaveFailed
  | ImportEmptyFile
  | ImportWrongFormat
  | ImportFailed
  | ImportDone bool nat

record app =
  sets :: "StickerSet list"
  swapSourceId :: "string option"
  idb :: object_store
  alerts :: "alert list"

text \<open>handleDeleteSet, lines 257-262. The rejection of \<open>deleteStickerSet\<close> is not caught.\<close>

definition handleDeleteSet :: "string \<Rightarrow> idb_event list \<Rightarrow> app \<Rightarrow> app" where
  "handleDeleteSet i evs st =
     (let r = deleteStickerSet i evs (idb st)
      in case settled r of
           Resolved \<Rightarrow>
             st\<lparr>sets := filter (\<lambda>s. set_id s \<noteq> i) (sets st),
                swapSourceId := (if swapSourceId st = Some i then None else swapSourceId st),
                idb := stored r\<rparr>
         | Rejected \<Rightarrow> st\<lparr>idb := stored r\<rparr>
         | Pending \<Rightarrow> st\<lparr>idb := stored r\<rparr>)"

text \<open>The comparator of line 288.\<close>

definition swap_compare :: "StickerSet \<Rightarrow> StickerSet \<Rightarrow> int" where
  "swap_compare a b = order_or_0 a - order_or_0 b"

text \<open>Lines 277-288: the copy of the listing with the two orders exchanged, sorted.\<close>

definition swapped_sets :: "nat \<Rightarrow> nat \<Rightarrow> StickerSet list \<Rightarrow> StickerSet list" where
  "swapped_sets indexA indexB xs =
     (let newSets = xs;
          orderA = order_or_0 (newSets ! indexA);
          orderB = order_or_0 (newSets ! indexB);
          newSets = newSets[indexA := (newSets ! indexA)\<lparr>order := Some orderB\<rparr>];
          newSets = newSets[indexB := (newSets ! indexB)\<lparr>order := Some orderA\<rparr>]
      in array_sort swap_compare newSets)"

text \<open>handleSwapClick, lines 264-301.\<close>

definition handleSwapClick :: "string \<Rightarrow> idb_event list \<Rightarrow> app \<Rightarrow> app" where
  "handleSwapClick i evs st =
     (case swapSourceId st of
        None \<Rightarrow> st\<lparr>swapSourceId := Some i\<rparr>
      | Some src \<Rightarrow>
          if src = i then st\<lparr>swapSourceId := None\<rparr>
          else
            (case (findIndex (\<lambda>s. set_id s = src) (sets st),
                   findIndex (\<lambda>s. set_id s = i) (sets st)) of
               (Some indexA, Some indexB) \<Rightarrow>
                 (let sortedSets = swapped_sets indexA indexB (sets st);
                      r = saveStickerSets_tx (map Keyed sortedSets) evs (idb st)
                  in case settled r of
                       Resolved \<Rightarrow> st\<lparr>sets := sortedSets, swapSourceId := None, idb := stored r\<rparr>
                     | Rejected \<Rightarrow>
                         st\<lparr>swapSourceId := None, idb := stored r,
                            alerts := alerts st @ [SwapSaveFailed]\<rparr>
                     | Pending \<Rightarrow> st\<lparr>idb := stored r\<rparr>)
             | _ \<Rightarrow> st\<lparr>swapSourceId := None\<rparr>))"

text \<open>
  handleFileImport, lines 470-525. The file and the result of \<open>JSON.parse\<close> are the
  payload; the elements of a parsed array are records, values without an id, or
  \<open>null\<close>. The two \<open>confirm\<close> dialogs are the booleans \<open>confirmed\<close> and
  \<open>shouldClear\<close>. A throw of the map over the array reaches the same \<open>catch\<close> block
  as a rejected write, after the store has been cleared and before anything is
  written.
\<close>

datatype file_payload =
    NoFile
  | EmptyContent
  | Unparsable
  | NotAnArray
  | Records "element list"

record import_io =
  clear_events :: "idb_event list"
  save_events :: "idb_event list"
  getAll_events :: "idb_event list"

text \<open>\<open>order: typeof s.order === 'number' ? s.order : idx\<close> (lines 192 and 504).\<close>

definition with_order :: "nat \<Rightarrow> StickerSet \<Rightarrow> StickerSet" where
  "with_order idx s = (case order s of None \<Rightarrow> s\<lparr>order := Some (int idx)\<rparr> | Some n \<Rightarrow> s)"

text \<open>Lines 502-505: the callback of the map over the imported array. Reading
  \<open>s.order\<close> of \<open>null\<close> throws a \<open>TypeError\<close>, which is the value \<open>None\<close>.\<close>

fun clean_element :: "nat \<Rightarrow> element \<Rightarrow> element option" where
  "clean_element idx (Keyed s) = Some (Keyed (with_order idx s))"
| "clean_element idx Unkeyed = Some Unkeyed"
| "clean_element idx Nullish = None"

text \<open>The map itself, from the given index on: the array of the results, or \<open>None\<close>
  when the callback throws.\<close>

fun clean_from :: "nat \<Rightarrow> element list \<Rightarrow> element list option" where
  "clean_from idx [] = Some []"
| "clean_from idx (e # es) =
     (case clean_element idx e of
        None \<Rightarrow> None
      | Some c \<Rightarrow> (case clean_from (Suc idx) es of None \<Rightarrow> None | Some cs \<Rightarrow> Some (c # cs)))"

definition ensure_order :: "element list \<Rightarrow> element list option" where
  "ensure_order data = clean_from 0 data"

text \<open>The effect on mount, lines 187-196: the listing is the stored records as getAll
  returns them, with missing orders filled by position. Nothing is written.\<close>

definition loadOnMount :: "idb_event list \<Rightarrow> app \<Rightarrow> app" where
  "loadOnMount evs st =
     (case getAllStickerSets evs (idb st) of
        (Resolved, loadedSets) \<Rightarrow>
          st\<lparr>sets := map (\<lambda>(idx, s). with_order idx s) (enumerate 0 loadedSets)\<rparr>
      | (Rejected, loadedSets) \<Rightarrow> st
      | (Pending, loadedSets) \<Rightarrow> st)"

definition handleFileImport ::
  "file_payload \<Rightarrow> bool \<Rightarrow> bool \<Rightarrow> import_io \<Rightarrow> app \<Rightarrow> app" where
  "handleFileImport payload confirmed shouldClear io st =
     (case payload of
        NoFile \<Rightarrow> st
      | EmptyContent \<Rightarrow> st\<lparr>alerts := alerts st @ [ImportEmptyFile]\<rparr>
      | Unparsable \<Rightarrow> st\<lparr>alerts := alerts st @ [ImportFailed]\<rparr>
      | NotAnArray \<Rightarrow> st\<lparr>alerts := alerts st @ [ImportWrongFormat]\<rparr>
      | Records data \<Rightarrow>
          if \<not> confirmed then st
          else
            (let c = (if shouldClear then clearAllStickerSets (clear_events io) (idb st)
                      else \<lparr>settled = Resolved, stored = idb st\<rparr>)
             in case settled c of
                  Pending \<Rightarrow> st\<lparr>idb := stored c\<rparr>
                | Rejected \<Rightarrow> st\<lparr>idb := stored c, alerts := alerts st @ [ImportFailed]\<rparr>
                | Resolved \<Rightarrow>
                    (let w = (if length data > 0
                              then (case ensure_order data of
                                      None \<Rightarrow> \<lparr>settled = Rejected, stored = stored c\<rparr>
                                    | Some cleanData \<Rightarrow>
                                        saveStickerSets_tx cleanData (save_events io) (stored c))
                              else \<lparr>settled = Resolved, stored = stored c\<rparr>)
                     in case settled w of
                          Pending \<Rightarrow> st\<lparr>idb := stored w\<rparr>
                        | Rejected \<Rightarrow>
                            st\<lparr>idb := stored w, alerts := alerts st @ [ImportFailed]\<rparr>
                        | Resolved \<Rightarrow>
                            (case getAllStickerSets (getAll_events io) (stored w) of
                               (Pending, refreshedSets) \<Rightarrow> st\<lparr>idb := stored w\<rparr>
                             | (Rejected, refreshedSets) \<Rightarrow>
                                 st\<lparr>idb := stored w, alerts := alerts st @ [ImportFailed]\<rparr>
                             | (Resolved, refreshedSets) \<Rightarrow>
                                 st\<lparr>sets := refreshedSets, idb := stored w,
                                    alerts := alerts st @ [ImportDone shouldClear (length data)]\<rparr>))))"

text \<open>A record with the defaults of handleCreateNew (lines 219-237, without items),
  used for concrete inputs.\<close>

definition sample_set :: "string \<Rightarrow> int option \<Rightarrow> int \<Rightarrow> StickerSet" where
  "sample_set i ord t =
     \<lparr>set_id = i, order = ord, title = ''Nouvelle Collection'', enTitle = ''New Collection'',
      series = [], zhDesc = [], enDesc = [], storeUrl = [], status = IDEATION,
      type' = Sticker, itemCount = 40, createdAt = t, items = []\<rparr>"

text \<open>The first scenario of the specification: the collections \<open>a\<close> (order 0) and
  \<open>b\<close> (order 1), stored and listed, with \<open>a\<close> selected.\<close>

definition set_a :: StickerSet where
  "set_a = sample_set ''a'' (Some 0) 1"

definition set_b :: StickerSet where
  "set_b = sample_set ''b'' (Some 1) 2"

definition sample_app :: app where
  "sample_app = \<lparr>sets = [set_a, set_b], swapSourceId = Some ''a'', idb = [set_a, set_b], alerts = []\<rparr>"

text \<open>A store with a record written before the order field existed, not yet
  loaded.\<close>

definition legacy_app :: app where
  "legacy_app =
     \<lparr>sets = [], swapSourceId = None,
      idb = [sample_set ''a'' (Some 0) 1, sample_set ''b'' (Some 1) 2, sample_set ''c'' None 3],
      alerts = []\<rparr>"

text \<open>The fourth scenario of the specification: a store of three collections, and a
  file of five others, four of them without an order. All transactions succeed.\<close>

definition old_app :: app where
  "old_app =
     \<lparr>sets = [sample_set ''o1'' (Some 0) 1, sample_set ''o2'' (Some 1) 2, sample_set ''o3'' (Some 2) 3],
      swapSourceId = Some ''o1'',
      idb = [sample_set ''o1'' (Some 0) 1, sample_set ''o2'' (Some 1) 2, sample_set ''o3'' (Some 2) 3],
      alerts = []\<rparr>"

definition imported_file :: "element list" where
  "imported_file =
     map Keyed
       [sample_set ''n1'' None 11, sample_set ''n2'' (Some 7) 12, sample_set ''n3'' None 13,
        sample_set ''n4'' None 14, sample_set ''n5'' None 15]"


definition all_succeed :: import_io where
  "all_succeed =
     \<lparr>clear_events = [RequestSuccess, TransactionComplete],
      save_events = [RequestSuccess, RequestSuccess, RequestSuccess, RequestSuccess,
                     RequestSuccess, TransactionComplete],
      getAll_events = [RequestSuccess, TransactionComplete]\<rparr>"

section \<open>Image codec (utils/imageCompression)\<close>

text \<open>
  The browser is the input of the model: whether the image loads and with which
  natural size, whether the canvas gives a 2D context, and the RGBA bytes that
  \<open>getImageData\<close> returns for the drawn canvas (\<open>None\<close> when it throws). The result
  stands for the data URL: its format, the size of the canvas it encodes, the colour
  painted under the image and the quality passed to \<open>toDataURL\<close>. \<open>maxWidth\<close> is a
  whole number of pixels, as at every call site (800).
\<close>

datatype mime = PNG | JPEG

datatype colour = White | WarmPaper

datatype codec_error = FileReadFailed | ImageLoadFailed | NoCanvasContext

record encoded =
  mime_type :: mime
  out_width :: nat
  out_height :: nat
  background :: "colour option"
  quality :: real

record browser =
  loaded :: "(nat \<times> nat) option"
  has_context :: bool
  image_data :: "8 word list option"

text \<open>Lines 21-27 and 85-92: \<open>height = (height * maxWidth) / width; width = maxWidth\<close>.
  The quotient is a JavaScript number and is not rounded by the program.\<close>

definition scaled_dimensions :: "nat \<Rightarrow> nat \<Rightarrow> nat \<Rightarrow> real \<times> real" where
  "scaled_dimensions w h maxWidth =
     (if real w > real maxWidth then (real maxWidth, (real h * real maxWidth) / real w)
      else (real w, real h))"

text \<open>\<open>canvas.width = width; canvas.height = height\<close>: the canvas attributes are
  unsigned integers, the assignment drops the fraction.\<close>

definition canvas_size :: "real \<Rightarrow> nat" where
  "canvas_size x = nat \<lfloor>x\<rfloor>"

text \<open>hasTransparency, imageCompression.ts lines 150-166: the loop from byte 3 in
  steps of 400 bytes (every hundredth pixel).\<close>

function alpha_scan_sampled :: "nat \<Rightarrow> 8 word list \<Rightarrow> bool" where
  "alpha_scan_sampled i data =
     (if i < length data
      then (if data ! i < 255 then True else alpha_scan_sampled (i + 400) data)
      else False)"
  by pat_completeness auto
termination
  by (relation "measure (\<lambda>(i, data). length data - i)") auto

definition hasTransparency :: "8 word list option \<Rightarrow> bool" where
  "hasTransparency d = (case d of None \<Rightarrow> True | Some data \<Rightarrow> alpha_scan_sampled 3 data)"

text \<open>hasTransparency, src/unnamed/part_009 lines 191-212: the loop in steps of 4
  bytes (every pixel).\<close>

function alpha_scan_full :: "nat \<Rightarrow> 8 word list \<Rightarrow> bool" where
  "alpha_scan_full i data =
     (if i < length data
      then (if data ! i < 255 then True else alpha_scan_full (i + 4) data)
      else False)"
  by pat_completeness auto
termination
  by (relation "measure (\<lambda>(i, data). length data - i)") auto

definition hasTransparency_full :: "8 word list option \<Rightarrow> bool" where
  "hasTransparency_full d = (case d of None \<Rightarrow> True | Some data \<Rightarrow> alpha_scan_full 3 data)"

text \<open>compressImage, imageCompression.ts lines 8-66. \<open>file_ok\<close> is false when the
  reader fails; \<open>file_type\<close> is \<open>file.type\<close>.\<close>

definition compressImage :: "bool \<Rightarrow> string \<Rightarrow> browser \<Rightarrow> nat \<Rightarrow> real \<Rightarrow> codec_error + encoded" where
  "compressImage file_ok file_type env maxWidth q =
     (if \<not> file_ok then Inl FileReadFailed
      else case loaded env of
        None \<Rightarrow> Inl ImageLoadFailed
      | Some (w, h) \<Rightarrow>
          (let (width, height) = scaled_dimensions w h maxWidth
           in if \<not> has_context env then Inl NoCanvasContext
              else Inr \<lparr>mime_type = (if file_type = ''image/png'' \<and> hasTransparency (image_data env)
                                      then PNG else JPEG),
                        out_width = canvas_size width, out_height = canvas_size height,
                        background = None, quality = q\<rparr>))"

text \<open>compressExistingImage, imageCompression.ts lines 75-145.\<close>

definition compressExistingImage :: "string \<Rightarrow> browser \<Rightarrow> nat \<Rightarrow> real \<Rightarrow> codec_error + encoded" where
  "compressExistingImage dataUrl env maxWidth q =
     (case loaded env of
        None \<Rightarrow> Inl ImageLoadFailed
      | Some (w, h) \<Rightarrow>
          (let (width, height) = scaled_dimensions w h maxWidth;
               isPNG = prefix ''data:image/png'' dataUrl
           in if \<not> has_context env then Inl NoCanvasContext
              else if isPNG \<and> hasTransparency (image_data env)
              then Inr \<lparr>mime_type = PNG, out_width = canvas_size width,
                        out_height = canvas_size height, background = None, quality = q\<rparr>
              else Inr \<lparr>mime_type = JPEG, out_width = canvas_size width,
                        out_height = canvas_size height, background = Some White, quality = q\<rparr>))"

text \<open>compressExistingImage, src/unnamed/part_009 lines 92-187: the same with the scan
  of every pixel.\<close>

definition compressExistingImage_fullscan ::
  "string \<Rightarrow> browser \<Rightarrow> nat \<Rightarrow> real \<Rightarrow> codec_error + encoded" where
  "compressExistingImage_fullscan dataUrl env maxWidth q =
     (case loaded env of
        None \<Rightarrow> Inl ImageLoadFailed
      | Some (w, h) \<Rightarrow>
          (let (width, height) = scaled_dimensions w h maxWidth;
               isPNG = prefix ''data:image/png'' dataUrl
           in if \<not> has_context env then Inl NoCanvasContext
              else if isPNG \<and> hasTransparency_full (image_data env)
              then Inr \<lparr>mime_type = PNG, out_width = canvas_size width,
                        out_height = canvas_size height, background = None, quality = q\<rparr>
              else Inr \<lparr>mime_type = JPEG, out_width = canvas_size width,
                        out_height = canvas_size height, background = Some White, quality = q\<rparr>))"

text \<open>compressExistingImage, imageCompression.ts lines 258-329 (the second module in
  that file): \<open>isPNG\<close> is only logged, the canvas is filled with #FDFBF7 and always
  encoded as JPEG.\<close>

definition compressExistingImage_jpeg ::
  "string \<Rightarrow> browser \<Rightarrow> nat \<Rightarrow> real \<Rightarrow> codec_error + encoded" where
  "compressExistingImage_jpeg dataUrl env maxWidth q =
     (case loaded env of
        None \<Rightarrow> Inl ImageLoadFailed
      | Some (w, h) \<Rightarrow>
          (let (width, height) = scaled_dimensions w h maxWidth
           in if \<not> has_context env then Inl NoCanvasContext
              else Inr \<lparr>mime_type = JPEG, out_width = canvas_size width,
                        out_height = canvas_size height, background = Some WarmPaper,
                        quality = q\<rparr>))"

text \<open>Inputs for the scenarios of the specification: a 2000 by 1000 image and a
  300 by 200 image, a single transparent pixel, and two pixels of which only the
  second is transparent. The data URL names a PNG.\<close>

definition png_url :: string where
  "png_url = ''data:image/png;base64,iVBORw0KGgo=''"

definition large_image :: browser where
  "large_image = \<lparr>loaded = Some (2000, 1000), has_context = True, image_data = None\<rparr>"

definition small_image :: browser where
  "small_image = \<lparr>loaded = Some (300, 200), has_context = True, image_data = None\<rparr>"

definition clear_pixel :: browser where
  "clear_pixel = \<lparr>loaded = Some (1, 1), has_context = True, image_data = Some [0, 0, 0, 0]\<rparr>"

definition two_pixels :: browser where
  "two_pixels =
     \<lparr>loaded = Some (2, 1), has_context = True,
      image_data = Some [10, 20, 30, 255, 0, 0, 0, 0]\<rparr>"

section \<open>Sync service (GitHubSyncService, src/unnamed/part_002 lines 360-745)\<close>

text \<open>
  This is the variant of the service with the size limits and the re-fetch of
  truncated content. The remote side and the JSON built-ins are the input of the
  model. A call of \<open>fetch\<close> (with the reading of its body) either throws a platform
  error, given by its name and message, or yields a status and a body.
\<close>

datatype json =
    JNull
  | JBool bool
  | JNumber real
  | JString string
  | JArray "json list"
  | JObject "(string \<times> json) list"

datatype 'a fetched = Throws string string | Response nat 'a

definition response_ok :: "nat \<Rightarrow> bool" where
  "response_ok st = (200 \<le> st \<and> st \<le> 299)"

record gist_summary =
  gist_id :: string
  description :: string

record gist_file =
  content :: string
  truncated :: bool
  raw_url :: string

record api_reply =
  reply_id :: string
  reply_message :: string

text \<open>The body of \<open>GET /gists/{id}\<close> is reduced to \<open>gist.files['sticker-sets.json']\<close>.\<close>

record network =
  list_gists :: "gist_summary list fetched"
  get_gist :: "string \<Rightarrow> gist_file option fetched"
  get_raw :: "string \<Rightarrow> string fetched"
  post_gist :: "string \<Rightarrow> api_reply fetched"
  patch_gist :: "string \<Rightarrow> string \<Rightarrow> api_reply fetched"

record js_builtins =
  json_stringify :: "StickerSet list \<Rightarrow> (string \<times> string) + string"
  json_parse :: "string \<Rightarrow> (string \<times> string) + json"

datatype request =
    ListGists
  | GetGist string
  | GetRaw string
  | CreateGist string
  | UpdateGist string string

text \<open>\<open>SizeWarning\<close> is the \<open>console.warn\<close> of line 458; other console output is not
  modelled.\<close>

datatype effect = SizeWarning | Fetch request

text \<open>The fields of the service; \<open>localStorage\<close> mirrors them and is not modelled.\<close>

record service =
  token :: "string option"
  gistId :: "string option"

text \<open>\<open>!this.token\<close>, \<open>!this.gistId\<close>: \<open>null\<close> and the empty string are falsy.\<close>

definition falsy :: "string option \<Rightarrow> bool" where
  "falsy v = (v = None \<or> v = Some [])"

text \<open>
  The errors the service throws, one constructor per \<open>throw\<close> of the source (the
  line of the message is given), and \<open>Native\<close> for an error of the platform with its
  name and message. A constructor with an argument embeds the message of that error.
\<close>

datatype sync_error =
    Native string string
  | NotLoggedIn \<comment> \<open>432, 483\<close>
  | BadSerializedShape \<comment> \<open>443\<close>
  | FormatFailed sync_error \<comment> \<open>446\<close>
  | TooLarge real \<comment> \<open>454, with the size in MiB\<close>
  | UploadLimit \<comment> \<open>472\<close>
  | UploadFailed sync_error \<comment> \<open>474\<close>
  | TokenExpired \<comment> \<open>512\<close>
  | HttpStatus nat \<comment> \<open>514\<close>
  | RawFetchFailed nat \<comment> \<open>538\<close>
  | HtmlContent \<comment> \<open>554\<close>
  | NotArrayDownloaded \<comment> \<open>568\<close>
  | IncompleteData \<comment> \<open>585\<close>
  | BadFormat sync_error \<comment> \<open>588\<close>
  | CorruptData \<comment> \<open>604\<close>
  | NetworkProblem \<comment> \<open>608\<close>
  | DownloadFailed sync_error \<comment> \<open>611\<close>
  | ListTokenInvalid \<comment> \<open>633\<close>
  | ListForbidden \<comment> \<open>635\<close>
  | ListFailed nat \<comment> \<open>637\<close>
  | ApiError string \<comment> \<open>682, 712: the message of the reply\<close>

text \<open>The texts that the \<open>catch\<close> blocks look for with \<open>message.includes\<close>. Three of
  them are not ASCII and are given by their UTF-8 bytes: the words of line 596 (two
  characters) and of line 598 (four characters), and the ten characters of line 579.\<close>

datatype needle =
    N_Token | N_Permission | N_Gist | N_DataFormat | N_fetch | N_too_large
  | N_Unterminated | N_Unexpected_end | N_WrongShape

fun needle_text :: "needle \<Rightarrow> string" where
  "needle_text N_Token = ''Token''"
| "needle_text N_Gist = ''Gist''"
| "needle_text N_fetch = ''fetch''"
| "needle_text N_too_large = ''too large''"
| "needle_text N_Unterminated = ''Unterminated''"
| "needle_text N_Unexpected_end = ''Unexpected end''"
| "needle_text N_Permission = [CHR 0xE6, CHR 0xAC, CHR 0x8A, CHR 0xE9, CHR 0x99, CHR 0x90]"
| "needle_text N_DataFormat =
     [CHR 0xE8, CHR 0xB3, CHR 0x87, CHR 0xE6, CHR 0x96, CHR 0x99,
      CHR 0xE6, CHR 0xA0, CHR 0xBC, CHR 0xE5, CHR 0xBC, CHR 0x8F]"
| "needle_text N_WrongShape =
     [CHR 0xE4, CHR 0xB8, CHR 0x8B, CHR 0xE8, CHR 0xBC, CHR 0x89, CHR 0xE7, CHR 0x9A, CHR 0x84,
      CHR 0xE8, CHR 0xB3, CHR 0x87, CHR 0xE6, CHR 0x96, CHR 0x99,
      CHR 0xE6, CHR 0xA0, CHR 0xBC, CHR 0xE5, CHR 0xBC, CHR 0x8F,
      CHR 0xE4, CHR 0xB8, CHR 0x8D, CHR 0xE6, CHR 0xAD, CHR 0xA3, CHR 0xE7, CHR 0xA2, CHR 0xBA]"

text \<open>
  \<open>error.message.includes(needle)\<close>. For a platform message it is the substring
  test. For a message of the source it is read off the message: the fixed text of its
  line, and the embedded message where there is one. (The status and the size are
  printed as digits and dots, which contain no needle.)
\<close>

fun message_includes :: "needle \<Rightarrow> sync_error \<Rightarrow> bool" where
  "message_includes n (Native nm msg) = sublist (needle_text n) msg"
| "message_includes n (ApiError msg) = sublist (needle_text n) msg"
| "message_includes n NotLoggedIn = False"
| "message_includes n BadSerializedShape = False"
| "message_includes n (FormatFailed e) = (n = N_DataFormat \<or> message_includes n e)"
| "message_includes n (TooLarge mb) = (n = N_Gist)"
| "message_includes n UploadLimit = False"
| "message_includes n (UploadFailed e) = message_includes n e"
| "message_includes n TokenExpired = (n = N_Token)"
| "message_includes n (HttpStatus st) = False"
| "message_includes n (RawFetchFailed st) = False"
| "message_includes n HtmlContent = (n = N_Gist \<or> n = N_DataFormat)"
| "message_includes n NotArrayDownloaded = (n = N_DataFormat \<or> n = N_WrongShape)"
| "message_includes n IncompleteData = False"
| "message_includes n (BadFormat e) = (n = N_DataFormat \<or> message_includes n e)"
| "message_includes n CorruptData = (n = N_Gist \<or> n = N_DataFormat)"
| "message_includes n NetworkProblem = False"
| "message_includes n (DownloadFailed e) = message_includes n e"
| "message_includes n ListTokenInvalid = (n = N_Token)"
| "message_includes n ListForbidden = (n = N_Token \<or> n = N_Permission)"
| "message_includes n (ListFailed st) = (n = N_Gist)"

fun error_name :: "sync_error \<Rightarrow> string" where
  "error_name (Native nm msg) = nm"
| "error_name e = ''Error''"

text \<open>The outcome of an operation: its result, the service afterwards, and what it
  did on the console and the network, in order.\<close>

record 'a run =
  result :: "sync_error + 'a"
  after :: service
  effects :: "effect list"

text \<open>\<open>"L'Atelier de Stickers - Backup"\<close>, lines 644 and 670.\<close>

definition backup_description :: string where
  "backup_description = ''L'' @ [CHR 0x27] @ ''Atelier de Stickers - Backup''"

text \<open>\<open>error.message || 'Failed to ...'\<close>, lines 682 and 712.\<close>

definition reply_error :: "string \<Rightarrow> api_reply \<Rightarrow> sync_error" where
  "reply_error fallback r =
     ApiError (if reply_message r = [] then fallback else reply_message r)"

text \<open>createGist, lines 661-688.\<close>

definition createGist :: "network \<Rightarrow> string \<Rightarrow> service \<Rightarrow> unit run" where
  "createGist net c s =
     (case post_gist net c of
        Throws nm msg \<Rightarrow>
          \<lparr>result = Inl (Native nm msg), after = s, effects = [Fetch (CreateGist c)]\<rparr>
      | Response st r \<Rightarrow>
          if \<not> response_ok st
          then \<lparr>result = Inl (reply_error ''Failed to create gist'' r), after = s,
                effects = [Fetch (CreateGist c)]\<rparr>
          else \<lparr>result = Inr (), after = s\<lparr>gistId := Some (reply_id r)\<rparr>,
                effects = [Fetch (CreateGist c)]\<rparr>)"

text \<open>updateGist, lines 693-714. It is called with a gist id only.\<close>

definition updateGist :: "network \<Rightarrow> string \<Rightarrow> string \<Rightarrow> service \<Rightarrow> unit run" where
  "updateGist net g c s =
     (case patch_gist net g c of
        Throws nm msg \<Rightarrow>
          \<lparr>result = Inl (Native nm msg), after = s, effects = [Fetch (UpdateGist g c)]\<rparr>
      | Response st r \<Rightarrow>
          if \<not> response_ok st
          then \<lparr>result = Inl (reply_error ''Failed to update gist'' r), after = s,
                effects = [Fetch (UpdateGist g c)]\<rparr>
          else \<lparr>result = Inr (), after = s, effects = [Fetch (UpdateGist g c)]\<rparr>)"

text \<open>Lines 436-447: the serialization and its check.\<close>

definition serialize :: "js_builtins \<Rightarrow> StickerSet list \<Rightarrow> sync_error + string" where
  "serialize js stickerSets =
     (case json_stringify js stickerSets of
        Inl (nm, msg) \<Rightarrow> Inl (FormatFailed (Native nm msg))
      | Inr c \<Rightarrow>
          (case json_parse js c of
             Inl (nm, msg) \<Rightarrow> Inl (FormatFailed (Native nm msg))
           | Inr (JArray vs) \<Rightarrow> Inr c
           | Inr other \<Rightarrow> Inl (FormatFailed BadSerializedShape)))"

text \<open>Lines 450-451: \<open>new Blob([content]).size\<close> is the number of UTF-8 bytes.\<close>

definition sizeInMB :: "string \<Rightarrow> real" where
  "sizeInMB c = real (length c) / (1024 * 1024)"

text \<open>Lines 469-475.\<close>

definition upload_catch :: "sync_error \<Rightarrow> sync_error" where
  "upload_catch e = (if message_includes N_too_large e then UploadLimit else UploadFailed e)"

text \<open>Lines 462-468: the request of upload, to the cached gist when there is one.\<close>

definition upload_request :: "network \<Rightarrow> string \<Rightarrow> service \<Rightarrow> unit run" where
  "upload_request net c s =
     (case gistId s of
        None \<Rightarrow> createGist net c s
      | Some g \<Rightarrow> if g = [] then createGist net c s else updateGist net g c s)"

text \<open>upload, lines 430-476.\<close>

definition upload :: "js_builtins \<Rightarrow> network \<Rightarrow> StickerSet list \<Rightarrow> service \<Rightarrow> unit run" where
  "upload js net stickerSets s =
     (if falsy (token s) then \<lparr>result = Inl NotLoggedIn, after = s, effects = []\<rparr>
      else case serialize js stickerSets of
        Inl e \<Rightarrow> \<lparr>result = Inl e, after = s, effects = []\<rparr>
      | Inr c \<Rightarrow>
          if sizeInMB c > 10
          then \<lparr>result = Inl (TooLarge (sizeInMB c)), after = s, effects = []\<rparr>
          else
            (let warned = (if sizeInMB c > 5 then [SizeWarning] else []);
                 r = upload_request net c s
             in \<lparr>result = (case result r of Inl e \<Rightarrow> Inl (upload_catch e) | Inr u \<Rightarrow> Inr u),
                 after = after r, effects = warned @ effects r\<rparr>))"

text \<open>findGistByDescription, lines 619-656.\<close>

definition findGistByDescription :: "network \<Rightarrow> service \<Rightarrow> unit run" where
  "findGistByDescription net s =
     (if falsy (token s) then \<lparr>result = Inr (), after = s, effects = []\<rparr>
      else case list_gists net of
        Throws nm msg \<Rightarrow>
          \<lparr>result = Inl (Native nm msg), after = s, effects = [Fetch ListGists]\<rparr>
      | Response st gists \<Rightarrow>
          if \<not> response_ok st
          then \<lparr>result = Inl (if st = 401 then ListTokenInvalid
                                else if st = 403 then ListForbidden
                                else ListFailed st),
                after = s, effects = [Fetch ListGists]\<rparr>
          else
            (case find (\<lambda>g. description g = backup_description) gists of
               None \<Rightarrow> \<lparr>result = Inr (), after = s, effects = [Fetch ListGists]\<rparr>
             | Some g \<Rightarrow>
                 \<lparr>result = Inr (), after = s\<lparr>gistId := Some (gist_id g)\<rparr>,
                  effects = [Fetch ListGists]\<rparr>))"

text \<open>
  \<open>content.trim()\<close> removes the white space and line terminators of JavaScript from
  both ends. In UTF-8 these are the six ASCII characters U+0009 to U+000D and U+0020,
  and U+00A0, U+1680, U+2000 to U+200A, U+2028, U+2029, U+202F, U+205F, U+3000 and
  U+FEFF, given here by their bytes.
\<close>

definition white_space :: "string list" where
  "white_space =
     [[CHR 0x09], [CHR 0x0A], [CHR 0x0B], [CHR 0x0C], [CHR 0x0D], [CHR 0x20],
      [CHR 0xC2, CHR 0xA0],
      [CHR 0xE1, CHR 0x9A, CHR 0x80],
      [CHR 0xE2, CHR 0x80, CHR 0x80], [CHR 0xE2, CHR 0x80, CHR 0x81],
      [CHR 0xE2, CHR 0x80, CHR 0x82], [CHR 0xE2, CHR 0x80, CHR 0x83],
      [CHR 0xE2, CHR 0x80, CHR 0x84], [CHR 0xE2, CHR 0x80, CHR 0x85],
      [CHR 0xE2, CHR 0x80, CHR 0x86], [CHR 0xE2, CHR 0x80, CHR 0x87],
      [CHR 0xE2, CHR 0x80, CHR 0x88], [CHR 0xE2, CHR 0x80, CHR 0x89],
      [CHR 0xE2, CHR 0x80, CHR 0x8A],
      [CHR 0xE2, CHR 0x80, CHR 0xA8], [CHR 0xE2, CHR 0x80, CHR 0xA9],
      [CHR 0xE2, CHR 0x80, CHR 0xAF],
      [CHR 0xE2, CHR 0x81, CHR 0x9F],
      [CHR 0xE3, CHR 0x80, CHR 0x80],
      [CHR 0xEF, CHR 0xBB, CHR 0xBF]]"

text \<open>The text without its leading occurrences of the given sequences.\<close>

function strip_start :: "string list \<Rightarrow> string \<Rightarrow> string" where
  "strip_start ws c =
     (case find (\<lambda>w. w \<noteq> [] \<and> prefix w c) ws of
        None \<Rightarrow> c
      | Some w \<Rightarrow> strip_start ws (drop (length w) c))"
  by pat_completeness auto
termination
proof (relation "measure (\<lambda>(ws, c). length c)")
  show "wf (measure (\<lambda>(ws, c). length c))" by simp
next
  fix ws :: "string list" and c w :: string
  assume "find (\<lambda>w. w \<noteq> [] \<and> prefix w c) ws = Some w"
  then have "w \<noteq> [] \<and> prefix w c" by (auto simp: find_Some_iff)
  then have "0 < length w" "length w \<le> length c" by (auto simp: prefix_def)
  then have "length c - length w < length c" by linarith
  then show "((ws, drop (length w) c), (ws, c)) \<in> measure (\<lambda>(ws, c). length c)" by simp
qed

declare strip_start.simps [simp del]

definition trim :: "string \<Rightarrow> string" where
  "trim c = rev (strip_start (map rev white_space) (rev (strip_start white_space c)))"

text \<open>Lines 563-589: the parse of the content and the classification of its failure.\<close>

definition parse_content :: "js_builtins \<Rightarrow> string \<Rightarrow> sync_error + json list" where
  "parse_content js c =
     (case json_parse js c of
        Inr (JArray parsedData) \<Rightarrow> Inr parsedData
      | Inr other \<Rightarrow> Inl NotArrayDownloaded
      | Inl (nm, msg) \<Rightarrow>
          if message_includes N_WrongShape (Native nm msg) then Inl (Native nm msg)
          else if message_includes N_Unterminated (Native nm msg)
                  \<or> message_includes N_Unexpected_end (Native nm msg)
          then Inl IncompleteData
          else Inl (BadFormat (Native nm msg)))"

text \<open>Lines 546-589: what download does with the content it has chosen.\<close>

definition read_content :: "js_builtins \<Rightarrow> string \<Rightarrow> sync_error + json list" where
  "read_content js c =
     (if c = [] \<or> trim c = [] then Inr []
      else if prefix ''<!DOCTYPE'' (trim c) \<or> prefix ''<html'' (trim c) then Inl HtmlContent
      else parse_content js c)"

text \<open>Lines 524-544: the choice of the content. The result carries the request made.\<close>

definition choose_content :: "network \<Rightarrow> gist_file \<Rightarrow> (sync_error + string) \<times> effect list" where
  "choose_content net file =
     (if truncated file
      then (case get_raw net (raw_url file) of
              Throws nm msg \<Rightarrow> (Inl (Native nm msg), [Fetch (GetRaw (raw_url file))])
            | Response st text \<Rightarrow>
                if \<not> response_ok st
                then (Inl (RawFetchFailed st), [Fetch (GetRaw (raw_url file))])
                else (Inr text, [Fetch (GetRaw (raw_url file))]))
      else (Inr (content file), []))"

text \<open>Lines 590-612: the outer \<open>catch\<close>.\<close>

definition download_catch :: "sync_error \<Rightarrow> sync_error" where
  "download_catch e =
     (if message_includes N_Token e \<or> message_includes N_Permission e
         \<or> message_includes N_Gist e \<or> message_includes N_DataFormat e
      then e
      else if error_name e = ''SyntaxError'' then CorruptData
      else if message_includes N_fetch e then NetworkProblem
      else DownloadFailed e)"

text \<open>Lines 497-589: the download from the gist with the given id.\<close>

definition download_gist :: "js_builtins \<Rightarrow> network \<Rightarrow> string \<Rightarrow> service \<Rightarrow> json list run" where
  "download_gist js net g s =
     (case get_gist net g of
        Throws nm msg \<Rightarrow>
          \<lparr>result = Inl (Native nm msg), after = s, effects = [Fetch (GetGist g)]\<rparr>
      | Response st body \<Rightarrow>
          if \<not> response_ok st
          then (if st = 404
                then \<lparr>result = Inr [], after = s\<lparr>gistId := None\<rparr>, effects = [Fetch (GetGist g)]\<rparr>
                else \<lparr>result = Inl (if st = 401 then TokenExpired else HttpStatus st),
                      after = s, effects = [Fetch (GetGist g)]\<rparr>)
          else
            (case body of
               None \<Rightarrow> \<lparr>result = Inr [], after = s, effects = [Fetch (GetGist g)]\<rparr>
             | Some file \<Rightarrow>
                 (case choose_content net file of
                    (Inl e, fx) \<Rightarrow>
                      \<lparr>result = Inl e, after = s, effects = Fetch (GetGist g) # fx\<rparr>
                  | (Inr c, fx) \<Rightarrow>
                      \<lparr>result = read_content js c, after = s,
                       effects = Fetch (GetGist g) # fx\<rparr>)))"

text \<open>download, lines 481-613.\<close>

definition download :: "js_builtins \<Rightarrow> network \<Rightarrow> service \<Rightarrow> json list run" where
  "download js net s =
     (if falsy (token s) then \<lparr>result = Inl NotLoggedIn, after = s, effects = []\<rparr>
      else
        (let f = (if falsy (gistId s) then findGistByDescription net s
                  else \<lparr>result = Inr (), after = s, effects = []\<rparr>)
         in case result f of
              Inl e \<Rightarrow> \<lparr>result = Inl (download_catch e), after = after f, effects = effects f\<rparr>
            | Inr u \<Rightarrow>
                (case gistId (after f) of
                   None \<Rightarrow> \<lparr>result = Inr [], after = after f, effects = effects f\<rparr>
                 | Some g \<Rightarrow>
                     if g = [] then \<lparr>result = Inr [], after = after f, effects = effects f\<rparr>
                     else
                       (let d = download_gist js net g (after f)
                        in \<lparr>result = (case result d of
                                         Inl e \<Rightarrow> Inl (download_catch e)
                                       | Inr xs \<Rightarrow> Inr xs),
                            after = after d, effects = effects f @ effects d\<rparr>))))"

text \<open>Inputs for the scenarios of the sync service: a logged-in service with a cached
  gist id; a gist whose embedded content is the truncated prefix \<open>[1\<close> of the raw
  content \<open>[1]\<close>; a parser that knows these two texts; and serializers that produce
  11 MiB and 6 MiB.\<close>

definition sample_service :: service where
  "sample_service = \<lparr>token = Some ''ghp_token'', gistId = Some ''gist1''\<rparr>"

definition truncated_file :: gist_file where
  "truncated_file =
     \<lparr>content = ''[1'', truncated = True,
      raw_url = ''https://gist.githubusercontent.com/raw/sticker-sets.json''\<rparr>"

definition sample_network :: network where
  "sample_network =
     \<lparr>list_gists = Response 200 [],
      get_gist = (\<lambda>g. Response 200 (Some truncated_file)),
      get_raw = (\<lambda>u. Response 200 ''[1]''),
      post_gist = (\<lambda>c. Response 201 \<lparr>reply_id = ''gist1'', reply_message = []\<rparr>),
      patch_gist = (\<lambda>g c. Response 200 \<lparr>reply_id = g, reply_message = []\<rparr>)\<rparr>"

definition sample_parse :: "string \<Rightarrow> (string \<times> string) + json" where
  "sample_parse c =
     (if c = ''[1]'' then Inr (JArray [JNumber 1])
      else Inl (''SyntaxError'', ''Unexpected end of JSON input''))"

definition sample_js :: js_builtins where
  "sample_js = \<lparr>json_stringify = (\<lambda>xs. Inr ''[1]''), json_parse = sample_parse\<rparr>"

definition js_of_size :: "nat \<Rightarrow> js_builtins" where
  "js_of_size n =
     \<lparr>json_stringify = (\<lambda>xs. Inr (replicate n (CHR ''x''))),
      json_parse = (\<lambda>c. Inr (JArray []))\<rparr>"

section \<open>Notions of the specification used in the statements\<close>

text \<open>The swap invariant of the specification: the collection with id \<open>idA\<close> takes
  the order \<open>oB\<close>, the one with id \<open>idB\<close> takes \<open>oA\<close>, every other collection and
  every other field is as before.\<close>

definition exchanged :: "string \<Rightarrow> int \<Rightarrow> string \<Rightarrow> int \<Rightarrow> StickerSet \<Rightarrow> StickerSet" where
  "exchanged idA oA idB oB c =
     (if set_id c = idA then c\<lparr>order := Some oB\<rparr>
      else if set_id c = idB then c\<lparr>order := Some oA\<rparr>
      else c)"

text \<open>The selection of the reorder protocol refers to a collection of the listing.\<close>

definition selection_ok :: "app \<Rightarrow> bool" where
  "selection_ok st =
     (case swapSourceId st of None \<Rightarrow> True | Some i \<Rightarrow> i \<in> set_id ` set (sets st))"

text \<open>What download returns once it has requested the raw content (lines 537-611):
  the failure of that request, or the reading of the text it delivered, with the
  errors passed through the outer \<open>catch\<close>.\<close>

definition from_raw :: "js_builtins \<Rightarrow> string fetched \<Rightarrow> sync_error + json list" where
  "from_raw js r =
     (case r of
        Throws nm msg \<Rightarrow> Inl (download_catch (Native nm msg))
      | Response st text \<Rightarrow>
          if \<not> response_ok st then Inl (download_catch (RawFetchFailed st))
          else (case read_content js text of
                  Inl e \<Rightarrow> Inl (download_catch e)
                | Inr xs \<Rightarrow> Inr xs))"

section \<open>Properties of the sort\<close>

lemma mset_insert_by: "mset (insert_by cmp x ys) = add_mset x (mset ys)"
  by (induction ys) auto

lemma mset_array_sort: "mset (array_sort cmp xs) = mset xs"
  unfolding array_sort_def by (induction xs) (auto simp: mset_insert_by)

lemma set_array_sort: "set (array_sort cmp xs) = set xs"
  by (metis mset_array_sort set_mset_mset)


lemma insert_by_insort_key:
  "\<forall>y\<in>set ys. (cmp x y \<le> 0) = (f x \<le> f y) \<Longrightarrow> insert_by cmp x ys = insort_key f x ys"
  by (induction ys) auto

text \<open>With a comparator that orders by a key the sort is the stable sort by that key.\<close>

lemma array_sort_sort_key:
  "\<forall>x\<in>set xs. \<forall>y\<in>set xs. (cmp x y \<le> 0) = (f x \<le> f y) \<Longrightarrow>
   array_sort cmp xs = sort_key f xs"
proof (induction xs)
  case Nil
  then show ?case by (simp add: array_sort_def)
next
  case (Cons a xs)
  have ih: "array_sort cmp xs = sort_key f xs" using Cons by simp
  have "array_sort cmp (a # xs) = insert_by cmp a (array_sort cmp xs)"
    by (simp add: array_sort_def)
  also have "\<dots> = insort_key f a (sort_key f xs)"
    unfolding ih using Cons.prems by (intro insert_by_insort_key) simp
  finally show ?case by simp
qed

section \<open>getAll: the ordering policy\<close>

lemma getAll_sorted_by_order:
  assumes "\<forall>s\<in>set db. order s \<noteq> None"
  shows "getAll_sorted db = sort_key order_or_0 db"
  unfolding getAll_sorted_def
proof (intro array_sort_sort_key ballI)
  fix x y assume "x \<in> set db" "y \<in> set db"
  then obtain ox oy where "order x = Some ox" "order y = Some oy"
    using assms by (metis not_None_eq)
  then show "(getAll_compare x y \<le> 0) = (order_or_0 x \<le> order_or_0 y)"
    by (simp add: getAll_compare_def order_or_0_def)
qed

lemma getAll_sorted_by_createdAt:
  assumes "\<forall>s\<in>set db. order s = None"
  shows "getAll_sorted db = sort_key (\<lambda>s. - createdAt s) db"
  unfolding getAll_sorted_def
  using assms by (intro array_sort_sort_key) (auto simp: getAll_compare_def)

text \<open>
  C3, as the code has it. getAll returns every stored entity. When every entity has a
  defined order the result is ascending by order; when no entity has one it is
  descending by creation timestamp. (The comparator decides pair by pair: a store in
  which only some entities have an order is covered by neither case.)
\<close>

theorem getAll_ordering_policy:
  "mset (getAll_sorted db) = mset db \<and>
   ((\<forall>s\<in>set db. order s \<noteq> None) \<longrightarrow>
      sorted_wrt (\<lambda>a b. order_or_0 a \<le> order_or_0 b) (getAll_sorted db)) \<and>
   ((\<forall>s\<in>set db. order s = None) \<longrightarrow>
      sorted_wrt (\<lambda>a b. createdAt b \<le> createdAt a) (getAll_sorted db))"
proof (intro conjI impI)
  show "mset (getAll_sorted db) = mset db"
    by (simp add: getAll_sorted_def mset_array_sort)
next
  assume "\<forall>s\<in>set db. order s \<noteq> None"
  then have "getAll_sorted db = sort_key order_or_0 db"
    by (rule getAll_sorted_by_order)
  moreover have "sorted (map order_or_0 (sort_key order_or_0 db))"
    by simp
  ultimately show "sorted_wrt (\<lambda>a b. order_or_0 a \<le> order_or_0 b) (getAll_sorted db)"
    by (simp add: sorted_map)
next
  assume "\<forall>s\<in>set db. order s = None"
  then have "getAll_sorted db = sort_key (\<lambda>s. - createdAt s) db"
    by (rule getAll_sorted_by_createdAt)
  moreover have "sorted (map (\<lambda>s. - createdAt s) (sort_key (\<lambda>s. - createdAt s) db))"
    by simp
  ultimately show "sorted_wrt (\<lambda>a b. createdAt b \<le> createdAt a) (getAll_sorted db)"
    by (simp add: sorted_map)
qed

text \<open>The theorem at a store of two ordered entities and at a store of two legacy
  entities: both hypotheses hold there.\<close>

theorem getAll_ordering_policy_witness:
  "map order [sample_set ''a'' (Some 1) 5, sample_set ''b'' (Some 0) 7] = [Some 1, Some 0] \<and>
   sorted_wrt (\<lambda>a b. order_or_0 a \<le> order_or_0 b)
     (getAll_sorted [sample_set ''a'' (Some 1) 5, sample_set ''b'' (Some 0) 7]) \<and>
   map order [sample_set ''a'' None 5, sample_set ''b'' None 7] = [None, None] \<and>
   sorted_wrt (\<lambda>a b. createdAt b \<le> createdAt a)
     (getAll_sorted [sample_set ''a'' None 5, sample_set ''b'' None 7])"
proof -
  have h1: "\<forall>s\<in>set [sample_set ''a'' (Some 1) 5, sample_set ''b'' (Some 0) 7]. order s \<noteq> None"
    by (simp add: sample_set_def)
  have h2: "\<forall>s\<in>set [sample_set ''a'' None 5, sample_set ''b'' None 7]. order s = None"
    by (simp add: sample_set_def)
  have "sorted_wrt (\<lambda>a b. order_or_0 a \<le> order_or_0 b)
     (getAll_sorted [sample_set ''a'' (Some 1) 5, sample_set ''b'' (Some 0) 7])"
    using h1 getAll_ordering_policy
      [of "[sample_set ''a'' (Some 1) 5, sample_set ''b'' (Some 0) 7]"] by blast
  moreover have "sorted_wrt (\<lambda>a b. createdAt b \<le> createdAt a)
     (getAll_sorted [sample_set ''a'' None 5, sample_set ''b'' None 7])"
    using h2 getAll_ordering_policy
      [of "[sample_set ''a'' None 5, sample_set ''b'' None 7]"] by blast
  ultimately show ?thesis by (simp add: sample_set_def)
qed

text \<open>On the three entities of the following example the comparator is a strict
  total order (\<open>c\<close>, \<open>a\<close>, \<open>b\<close>): the example does not depend on what a sort does
  with an inconsistent comparator.\<close>

lemma mixed_orders_comparator_consistent:
  "getAll_compare (sample_set ''c'' None 3) (sample_set ''a'' (Some 0) 1) < 0 \<and>
   getAll_compare (sample_set ''a'' (Some 0) 1) (sample_set ''b'' (Some 1) 2) < 0 \<and>
   getAll_compare (sample_set ''c'' None 3) (sample_set ''b'' (Some 1) 2) < 0 \<and>
   getAll_compare (sample_set ''a'' (Some 0) 1) (sample_set ''c'' None 3) > 0 \<and>
   getAll_compare (sample_set ''b'' (Some 1) 2) (sample_set ''a'' (Some 0) 1) > 0 \<and>
   getAll_compare (sample_set ''b'' (Some 1) 2) (sample_set ''c'' None 3) > 0"
  by (simp add: getAll_compare_def sample_set_def)

text \<open>
  C3 as stated fails: with the entity \<open>c\<close> lacking an order the result is not
  descending by creation timestamp, because \<open>a\<close> and \<open>b\<close> are still compared by
  their orders.
\<close>

theorem getAll_mixed_orders_counterexample:
  "order (sample_set ''c'' None 3) = None \<and>
   getAll_sorted [sample_set ''a'' (Some 0) 1, sample_set ''b'' (Some 1) 2, sample_set ''c'' None 3]
     = [sample_set ''c'' None 3, sample_set ''a'' (Some 0) 1, sample_set ''b'' (Some 1) 2] \<and>
   createdAt (sample_set ''a'' (Some 0) 1) < createdAt (sample_set ''b'' (Some 1) 2)"
  by (simp add: getAll_sorted_def array_sort_def getAll_compare_def sample_set_def)

section \<open>The object store\<close>

lemma set_store_put_subset: "set (store_put s db) \<subseteq> insert s (set db)"
  by (induction db) auto

lemma store_put_mem: "s \<in> set (store_put s db)"
  by (induction db) auto

lemma ids_store_put: "set (map set_id (store_put s db)) = insert (set_id s) (set (map set_id db))"
  by (induction db) auto

lemma store_ok_put: "store_ok db \<Longrightarrow> store_ok (store_put s db)"
proof (induction db)
  case Nil
  then show ?case by (simp add: store_ok_def)
next
  case (Cons x xs)
  have ok: "store_ok xs" using Cons.prems by (simp add: store_ok_def)
  show ?case
  proof (cases "set_id s = set_id x")
    case True
    then show ?thesis using Cons.prems by (simp add: store_ok_def)
  next
    case ne: False
    show ?thesis
    proof (cases "set_id s < set_id x")
      case True
      then show ?thesis using Cons.prems ne by (auto simp: store_ok_def)
    next
      case False
      then have lt: "set_id x < set_id s" using ne by simp
      have "store_ok (store_put s xs)" using Cons.IH ok by simp
      moreover have "\<forall>i\<in>set (map set_id (store_put s xs)). set_id x < i"
        unfolding ids_store_put using lt Cons.prems by (auto simp: store_ok_def)
      ultimately show ?thesis using ne False by (simp add: store_ok_def)
    qed
  qed
qed

lemma store_ok_distinct: "store_ok db \<Longrightarrow> distinct (map set_id db)"
  by (simp add: store_ok_def strict_sorted_iff)

lemma store_ok_Cons:
  "store_ok (x # xs) = (store_ok xs \<and> (\<forall>y\<in>set xs. set_id x < set_id y))"
  by (auto simp: store_ok_def)

lemma set_store_put:
  "store_ok db \<Longrightarrow> set (store_put s db) = insert s {x \<in> set db. set_id x \<noteq> set_id s}"
proof (induction db)
  case Nil
  then show ?case by simp
next
  case (Cons x xs)
  have ok: "store_ok xs" and gt: "\<forall>y\<in>set xs. set_id x < set_id y"
    using Cons.prems by (simp_all add: store_ok_Cons)
  show ?case
  proof (cases "set_id s = set_id x")
    case True
    have "\<forall>y\<in>set xs. set_id y \<noteq> set_id s"
      using gt True by (metis order_less_irrefl)
    then have "{y \<in> set (x # xs). set_id y \<noteq> set_id s} = set xs"
      using True by auto
    then show ?thesis using True by simp
  next
    case ne: False
    show ?thesis
    proof (cases "set_id s < set_id x")
      case True
      have "\<forall>y\<in>set xs. set_id y \<noteq> set_id s"
        using gt True by (metis order_less_asym)
      then have "{y \<in> set (x # xs). set_id y \<noteq> set_id s} = set (x # xs)"
        using ne by auto
      then show ?thesis using True ne by simp
    next
      case False
      have "{y \<in> set (x # xs). set_id y \<noteq> set_id s} = insert x {y \<in> set xs. set_id y \<noteq> set_id s}"
        using ne by auto
      then show ?thesis using ne False Cons.IH[OF ok] by (simp add: insert_commute)
    qed
  qed
qed
lemma store_ok_put_all: "store_ok db \<Longrightarrow> store_ok (put_all xs db)"
  unfolding put_all_def by (induction xs arbitrary: db) (simp_all add: store_ok_put)

lemma put_all_Cons: "put_all (a # xs) db = put_all xs (store_put a db)"
  by (simp add: put_all_def)

lemma set_put_all:
  "store_ok db \<Longrightarrow> distinct (map set_id xs) \<Longrightarrow>
   set (put_all xs db) = set xs \<union> {x \<in> set db. set_id x \<notin> set_id ` set xs}"
proof (induction xs arbitrary: db)
  case Nil
  then show ?case by (simp add: put_all_def)
next
  case (Cons a xs)
  have a: "set_id a \<notin> set_id ` set xs" and d: "distinct (map set_id xs)"
    using Cons.prems by simp_all
  have "set (put_all xs (store_put a db)) =
      set xs \<union> {x \<in> set (store_put a db). set_id x \<notin> set_id ` set xs}"
    using Cons.IH[of "store_put a db"] Cons.prems(1) d by (simp add: store_ok_put)
  also have "{x \<in> set (store_put a db). set_id x \<notin> set_id ` set xs} =
      insert a {x \<in> set db. set_id x \<notin> set_id ` set (a # xs)}"
    unfolding set_store_put[OF Cons.prems(1)] using a by auto
  finally show ?case by (simp add: put_all_Cons)
qed

lemma put_all_replaces:
  assumes "store_ok db" "distinct (map set_id xs)" "set_id ` set db \<subseteq> set_id ` set xs"
  shows "set (put_all xs db) = set xs"
  using assms(3) unfolding set_put_all[OF assms(1,2)] by auto


lemma store_ok_delete: "store_ok db \<Longrightarrow> store_ok (store_delete i db)"
  by (simp add: store_ok_def store_delete_def sorted_wrt_map sorted_wrt_filter)

lemma put_each_Keyed: "put_each (map Keyed xs) db = (put_all xs db, False)"
  by (induction xs arbitrary: db) (simp_all add: put_all_def)

section \<open>Transactions\<close>

lemma on_transaction_settled: "p \<noteq> Pending \<Longrightarrow> fold on_transaction es p = p"
proof (induction es)
  case (Cons e es)
  then show ?case by (cases e) (simp_all add: resolve_def reject_def)
qed simp

text \<open>The promise of the functions that settle on the transaction.\<close>

lemma transaction_promise:
  "fold on_transaction (delivered evs) Pending =
     (if tx_commits evs then Resolved
      else if RequestError \<in> set (delivered evs) then Rejected else Pending)"
  by (induction evs rule: delivered.induct) (simp_all add: resolve_def reject_def)

lemma resolved_iff_commits:
  "(fold on_transaction (delivered evs) Pending = Resolved) = tx_commits evs"
  by (simp add: transaction_promise)


text \<open>
  For a batch of records with ids, the batch write of the later storage module
  (part_004) is all-or-nothing and resolves only on the commit: once resolved, a read
  returns every record of the batch; once rejected, the store is what it was; and the
  store never holds a part of the batch.
\<close>

lemma saveStickerSets_tx_Keyed:
  "saveStickerSets_tx (map Keyed xs) evs db =
     (if xs = [] then \<lparr>settled = Resolved, stored = db\<rparr>
      else \<lparr>settled = fold on_transaction (delivered evs) Pending,
            stored = (if tx_commits evs then put_all xs db else db)\<rparr>)"
  by (simp add: saveStickerSets_tx_def put_each_Keyed)

lemma saveStickerSets_tx_atomic:
  assumes "store_ok db" and "distinct (map set_id xs)"
  shows "(settled (saveStickerSets_tx (map Keyed xs) evs db) = Resolved \<longrightarrow>
            set xs \<subseteq> set (getAll_sorted (stored (saveStickerSets_tx (map Keyed xs) evs db)))) \<and>
         (settled (saveStickerSets_tx (map Keyed xs) evs db) = Rejected \<longrightarrow>
            stored (saveStickerSets_tx (map Keyed xs) evs db) = db) \<and>
         (stored (saveStickerSets_tx (map Keyed xs) evs db) = db \<or>
            stored (saveStickerSets_tx (map Keyed xs) evs db) = put_all xs db) \<and>
         (xs \<noteq> [] \<longrightarrow> settled (saveStickerSets_tx (map Keyed xs) evs db) = Resolved \<longrightarrow>
            tx_commits evs)"
proof (cases "xs = []")
  case True
  then show ?thesis by (simp add: saveStickerSets_tx_def)
next
  case False
  have "set xs \<subseteq> set (put_all xs db)"
    unfolding set_put_all[OF assms] by simp
  then show ?thesis
    using False
    by (simp add: saveStickerSets_tx_Keyed transaction_promise getAll_sorted_def set_array_sort)
qed

text \<open>A batch with an element that has no id is not written all-or-nothing: the put
  of that element throws, the promise is rejected, and the puts made before it are
  committed with the transaction.\<close>

lemma saveStickerSets_tx_partial:
  "saveStickerSets_tx [Keyed (sample_set ''a'' (Some 0) 1), Unkeyed]
      [RequestSuccess, TransactionComplete] []
     = \<lparr>settled = Rejected, stored = [sample_set ''a'' (Some 0) 1]\<rparr>"
  by (simp add: saveStickerSets_tx_def)

text \<open>
  C1 at the storage module src/services/storage.ts. Its saveStickerSets resolves at
  the success of the last request, before the transaction has completed. When the
  transaction then aborts, the promise is resolved and a read returns none of the two
  records of the batch.
\<close>

theorem saveStickerSets_resolves_before_commit:
  "saveStickerSets [Keyed (sample_set ''a'' (Some 0) 1), Keyed (sample_set ''b'' (Some 1) 2)]
      [RequestSuccess, RequestSuccess, TransactionAbort] []
     = \<lparr>settled = Resolved, stored = []\<rparr> \<and>
   getAll_sorted [] = [] \<and>
   settled (saveStickerSets [Keyed (sample_set ''a'' (Some 0) 1), Keyed (sample_set ''b'' (Some 1) 2)]
      [RequestSuccess, RequestSuccess] []) = Resolved \<and>
   \<not> tx_commits [RequestSuccess, RequestSuccess]"
  by (simp add: saveStickerSets_def resolve_def getAll_sorted_def array_sort_def)

section \<open>Reorder protocol: the swap\<close>

lemma findIndex_Some:
  "findIndex p xs = Some i \<Longrightarrow> i < length xs \<and> p (xs ! i)"
proof (induction xs arbitrary: i)
  case (Cons x xs)
  then show ?case by (cases "p x") (auto split: if_splits)
qed simp

lemma findIndex_None: "(findIndex p xs = None) = (\<forall>x\<in>set xs. \<not> p x)"
  by (induction xs) auto

lemma findIndex_by_id:
  assumes "distinct (map set_id xs)" "a \<in> set xs"
  shows "\<exists>i. findIndex (\<lambda>s. set_id s = set_id a) xs = Some i \<and> i < length xs \<and> xs ! i = a"
proof -
  obtain i where i: "findIndex (\<lambda>s. set_id s = set_id a) xs = Some i"
    using assms(2) findIndex_None[of "\<lambda>s. set_id s = set_id a" xs] by (cases "findIndex (\<lambda>s. set_id s = set_id a) xs") auto
  then have "i < length xs" "set_id (xs ! i) = set_id a"
    using findIndex_Some[OF i] by auto
  moreover have "inj_on set_id (set xs)" using assms(1) by (simp add: distinct_map)
  ultimately have "xs ! i = a" using assms(2) by (meson inj_onD nth_mem)
  then show ?thesis using i \<open>i < length xs\<close> by simp
qed

lemma swap_compare_key:
  "(swap_compare x y \<le> 0) = (order_or_0 x \<le> order_or_0 y)"
  by (simp add: swap_compare_def)

lemma swapped_sets_sort:
  "a \<noteq> b \<Longrightarrow> swapped_sets a b xs = sort_key order_or_0
     (xs[a := (xs ! a)\<lparr>order := Some (order_or_0 (xs ! b))\<rparr>,
         b := (xs ! b)\<lparr>order := Some (order_or_0 (xs ! a))\<rparr>])"
  unfolding swapped_sets_def Let_def
  by (subst array_sort_sort_key[where f = order_or_0]) (simp_all add: swap_compare_key)

lemma exchanged_id: "set_id (exchanged idA oA idB oB c) = set_id c"
  by (simp add: exchanged_def)

lemma update_is_map:
  assumes d: "distinct (map set_id xs)"
    and a: "a < length xs" and b: "b < length xs"
    and ab: "set_id (xs ! a) \<noteq> set_id (xs ! b)"
  shows "xs[a := (xs ! a)\<lparr>order := Some oB\<rparr>, b := (xs ! b)\<lparr>order := Some oA\<rparr>]
         = map (exchanged (set_id (xs ! a)) oA (set_id (xs ! b)) oB) xs"
proof (rule nth_equalityI)
  show "length (xs[a := (xs ! a)\<lparr>order := Some oB\<rparr>, b := (xs ! b)\<lparr>order := Some oA\<rparr>])
        = length (map (exchanged (set_id (xs ! a)) oA (set_id (xs ! b)) oB) xs)"
    by simp
next
  fix k
  assume "k < length (xs[a := (xs ! a)\<lparr>order := Some oB\<rparr>, b := (xs ! b)\<lparr>order := Some oA\<rparr>])"
  then have k: "k < length xs" by simp
  have neq: "a \<noteq> b" using ab by auto
  have ids: "\<And>i j. i < length xs \<Longrightarrow> j < length xs \<Longrightarrow> i \<noteq> j \<Longrightarrow> set_id (xs ! i) \<noteq> set_id (xs ! j)"
    using d by (metis length_map nth_eq_iff_index_eq nth_map)
  consider "k = a" | "k = b" | "k \<noteq> a" "k \<noteq> b" by blast
  then show "xs[a := (xs ! a)\<lparr>order := Some oB\<rparr>, b := (xs ! b)\<lparr>order := Some oA\<rparr>] ! k
        = map (exchanged (set_id (xs ! a)) oA (set_id (xs ! b)) oB) xs ! k"
  proof cases
    case 1
    then show ?thesis using a b neq by (simp add: exchanged_def)
  next
    case 2
    then show ?thesis using a b neq ab by (simp add: exchanged_def)
  next
    case 3
    then have "set_id (xs ! k) \<noteq> set_id (xs ! a)" "set_id (xs ! k) \<noteq> set_id (xs ! b)"
      using ids k a b by blast+
    then show ?thesis using 3 k by (simp add: exchanged_def)
  qed
qed

lemma orders_exchanged:
  assumes d: "distinct (map set_id xs)"
    and a: "a < length xs" and b: "b < length xs"
    and ab: "set_id (xs ! a) \<noteq> set_id (xs ! b)"
    and oa: "order (xs ! a) = Some oA" and ob: "order (xs ! b) = Some oB"
  shows "mset (map order (map (exchanged (set_id (xs ! a)) oA (set_id (xs ! b)) oB) xs))
         = mset (map order xs)"
proof -
  let ?os = "map order xs"
  have "map order (map (exchanged (set_id (xs ! a)) oA (set_id (xs ! b)) oB) xs)
        = map order (xs[a := (xs ! a)\<lparr>order := Some oB\<rparr>, b := (xs ! b)\<lparr>order := Some oA\<rparr>])"
    using update_is_map[OF d a b ab] by simp
  also have "\<dots> = ?os[a := ?os ! b, b := ?os ! a]"
    using a b oa ob by (simp add: map_update)
  also have "mset \<dots> = mset ?os"
    by (rule mset_swap) (use a b in simp_all)
  finally show ?thesis .
qed

lemma saveStickerSets_tx_committed:
  "tx_commits evs \<Longrightarrow>
   saveStickerSets_tx (map Keyed xs) evs db = \<lparr>settled = Resolved, stored = put_all xs db\<rparr>"
  by (simp add: saveStickerSets_tx_Keyed resolved_iff_commits put_all_def)



lemma swap_main:
  assumes d: "distinct (map set_id (sets st))"
    and src: "swapSourceId st = Some (set_id A)"
    and A: "A \<in> set (sets st)" and B: "B \<in> set (sets st)"
    and ne: "set_id A \<noteq> set_id B"
    and oA: "order A = Some oA" and oB: "order B = Some oB"
    and ok: "tx_commits evs"
  shows "handleSwapClick (set_id B) evs st =
     st\<lparr>sets := sort_key order_or_0 (map (exchanged (set_id A) oA (set_id B) oB) (sets st)),
        swapSourceId := None,
        idb := put_all (sort_key order_or_0 (map (exchanged (set_id A) oA (set_id B) oB) (sets st))) (idb st)\<rparr>"
proof -
  let ?xs = "sets st"
  obtain a where a: "findIndex (\<lambda>s. set_id s = set_id A) ?xs = Some a" "a < length ?xs" "?xs ! a = A"
    using findIndex_by_id[OF d A] by blast
  obtain b where b: "findIndex (\<lambda>s. set_id s = set_id B) ?xs = Some b" "b < length ?xs" "?xs ! b = B"
    using findIndex_by_id[OF d B] by blast
  have ab: "a \<noteq> b" using a b ne by auto
  have "swapped_sets a b ?xs = sort_key order_or_0
     (?xs[a := A\<lparr>order := Some oB\<rparr>, b := B\<lparr>order := Some oA\<rparr>])"
    using swapped_sets_sort[OF ab, of ?xs] a b oA oB by (simp add: order_or_0_def)
  also have "?xs[a := A\<lparr>order := Some oB\<rparr>, b := B\<lparr>order := Some oA\<rparr>]
      = map (exchanged (set_id A) oA (set_id B) oB) ?xs"
    using update_is_map[OF d a(2) b(2), of oB oA] a(3) b(3) ne by simp
  finally have sw: "swapped_sets a b ?xs
      = sort_key order_or_0 (map (exchanged (set_id A) oA (set_id B) oB) ?xs)" .
  show ?thesis
    using src ne a(1) b(1)
    by (simp add: handleSwapClick_def Let_def sw saveStickerSets_tx_committed[OF ok])
qed

lemma distinct_ids: "distinct (map set_id xs) \<Longrightarrow> distinct xs"
  by (simp add: distinct_map)

text \<open>
  C2, as the code has it. Let A and B be two collections of the listing with distinct
  ids and the orders \<open>oA\<close> and \<open>oB\<close>, A selected, the ids of the listing unique,
  and let the write of the swap commit. After the click on B the listing holds A with
  order \<open>oB\<close> and B with order \<open>oA\<close> and otherwise the same fields, and every
  other collection as it was; the multiset of its order values is the same; it is
  sorted by order; and the selection is reset. The store then holds every collection
  of the new listing as listed, and its collections that were not listed as they
  were. Where the store held exactly the collections of the listing before, it holds
  exactly those of the new listing after, and the multiset of its order values is the
  same.
\<close>

theorem swap_exchanges_orders:
  assumes d: "distinct (map set_id (sets st))"
    and src: "swapSourceId st = Some (set_id A)"
    and A: "A \<in> set (sets st)" and B: "B \<in> set (sets st)"
    and ne: "set_id A \<noteq> set_id B"
    and oA: "order A = Some oA" and oB: "order B = Some oB"
    and ok: "tx_commits evs"
  shows "A\<lparr>order := Some oB\<rparr> \<in> set (sets (handleSwapClick (set_id B) evs st)) \<and>
         B\<lparr>order := Some oA\<rparr> \<in> set (sets (handleSwapClick (set_id B) evs st)) \<and>
         mset (sets (handleSwapClick (set_id B) evs st))
           = image_mset (exchanged (set_id A) oA (set_id B) oB) (mset (sets st)) \<and>
         mset (map order (sets (handleSwapClick (set_id B) evs st))) = mset (map order (sets st)) \<and>
         sorted (map order_or_0 (sets (handleSwapClick (set_id B) evs st))) \<and>
         swapSourceId (handleSwapClick (set_id B) evs st) = None \<and>
         (store_ok (idb st) \<longrightarrow>
            set (idb (handleSwapClick (set_id B) evs st))
              = set (sets (handleSwapClick (set_id B) evs st))
                \<union> {x \<in> set (idb st). set_id x \<notin> set_id ` set (sets st)}) \<and>
         (store_ok (idb st) \<and> set (idb st) = set (sets st) \<longrightarrow>
            set (idb (handleSwapClick (set_id B) evs st))
              = set (sets (handleSwapClick (set_id B) evs st)) \<and>
            mset (map order (idb (handleSwapClick (set_id B) evs st)))
              = mset (map order (idb st)))"
proof -
  let ?f = "exchanged (set_id A) oA (set_id B) oB"
  let ?xs = "sets st"
  let ?ys = "sort_key order_or_0 (map ?f ?xs)"
  let ?st = "handleSwapClick (set_id B) evs st"
  have st': "?st = st\<lparr>sets := ?ys, swapSourceId := None, idb := put_all ?ys (idb st)\<rparr>"
    by (rule swap_main[OF d src A B ne oA oB ok])
  have sets': "sets ?st = ?ys" and idb': "idb ?st = put_all ?ys (idb st)"
    and sel: "swapSourceId ?st = None"
    by (simp_all add: st')
  have ms: "mset ?ys = image_mset ?f (mset ?xs)" by simp
  have fA: "?f A = A\<lparr>order := Some oB\<rparr>" and fB: "?f B = B\<lparr>order := Some oA\<rparr>"
    using ne by (simp_all add: exchanged_def)
  have memA: "A\<lparr>order := Some oB\<rparr> \<in> set ?ys" using A fA by force
  have memB: "B\<lparr>order := Some oA\<rparr> \<in> set ?ys" using B fB by force
  obtain a where a: "a < length ?xs" "?xs ! a = A" using A by (meson in_set_conv_nth)
  obtain b where b: "b < length ?xs" "?xs ! b = B" using B by (meson in_set_conv_nth)
  have "mset (map order (map ?f ?xs)) = mset (map order ?xs)"
    using orders_exchanged[OF d a(1) b(1), of oA oB] a(2) b(2) ne oA oB by simp
  then have ords: "mset (map order ?ys) = mset (map order ?xs)"
    by (simp add: image_mset.compositionality)
  have srt: "sorted (map order_or_0 ?ys)" by simp
  have ids: "mset (map set_id ?ys) = mset (map set_id ?xs)"
    by (simp add: exchanged_id image_mset.compositionality comp_def)
  then have dys: "distinct (map set_id ?ys)"
    using d by (metis mset_eq_imp_distinct_iff)
  have idset: "set_id ` set ?ys = set_id ` set ?xs"
    using ids by (metis set_map set_mset_mset)
  have part: "set (put_all ?ys (idb st))
        = set ?ys \<union> {x \<in> set (idb st). set_id x \<notin> set_id ` set ?xs}"
    if m1: "store_ok (idb st)"
    unfolding set_put_all[OF m1 dys] idset ..
  have whole: "set (put_all ?ys (idb st)) = set ?ys \<and>
        mset (map order (put_all ?ys (idb st))) = mset (map order (idb st))"
    if m: "store_ok (idb st) \<and> set (idb st) = set ?xs"
  proof -
    have m1: "store_ok (idb st)" and m2: "set (idb st) = set ?xs" using m by simp_all
    have sub: "set_id ` set (idb st) \<subseteq> set_id ` set ?ys"
      using m2 idset by simp
    have store: "set (put_all ?ys (idb st)) = set ?ys"
      by (rule put_all_replaces[OF m1 dys sub])
    have "distinct (put_all ?ys (idb st))"
      using store_ok_distinct[OF store_ok_put_all[OF m1]] by (rule distinct_ids)
    moreover have "distinct ?ys" using dys by (rule distinct_ids)
    ultimately have "mset (put_all ?ys (idb st)) = mset ?ys"
      using store by (metis set_eq_iff_mset_eq_distinct)
    moreover have "mset (idb st) = mset ?xs"
      using m2 distinct_ids[OF store_ok_distinct[OF m1]] distinct_ids[OF d]
      by (metis set_eq_iff_mset_eq_distinct)
    ultimately have "mset (map order (put_all ?ys (idb st))) = mset (map order (idb st))"
      using ords by (metis mset_map)
    then show ?thesis using store by simp
  qed
  show ?thesis
    unfolding sets' idb' sel using memA memB ms ords srt part whole by blast
qed

text \<open>The first scenario of the specification: after selecting \<open>a\<close> and clicking
  \<open>b\<close> the listing is \<open>b\<close> (order 0), \<open>a\<close> (order 1), and so is the store, which
  held the listing.\<close>

theorem swap_exchanges_orders_witness:
  "sets (handleSwapClick ''b'' [RequestSuccess, RequestSuccess, TransactionComplete] sample_app)
     = [set_b\<lparr>order := Some 0\<rparr>, set_a\<lparr>order := Some 1\<rparr>] \<and>
   set_a\<lparr>order := Some 1\<rparr>
     \<in> set (sets (handleSwapClick ''b'' [RequestSuccess, RequestSuccess, TransactionComplete] sample_app)) \<and>
   mset (map order (idb (handleSwapClick ''b'' [RequestSuccess, RequestSuccess, TransactionComplete] sample_app)))
     = mset (map order (idb sample_app)) \<and>
   swapSourceId (handleSwapClick ''b'' [RequestSuccess, RequestSuccess, TransactionComplete] sample_app) = None"
proof -
  have h: "distinct (map set_id (sets sample_app))" "swapSourceId sample_app = Some (set_id set_a)"
    "set_a \<in> set (sets sample_app)" "set_b \<in> set (sets sample_app)" "set_id set_a \<noteq> set_id set_b"
    "order set_a = Some 0" "order set_b = Some 1"
    "tx_commits [RequestSuccess, RequestSuccess, TransactionComplete]"
    by (simp_all add: sample_app_def set_a_def set_b_def sample_set_def)
  have m: "store_ok (idb sample_app) \<and> set (idb sample_app) = set (sets sample_app)"
    by (simp add: sample_app_def set_a_def set_b_def sample_set_def store_ok_def)
  have b: "set_id set_b = ''b''" by (simp add: set_b_def sample_set_def)
  have "sets (handleSwapClick ''b'' [RequestSuccess, RequestSuccess, TransactionComplete] sample_app)
     = [set_b\<lparr>order := Some 0\<rparr>, set_a\<lparr>order := Some 1\<rparr>]"
    by (simp add: handleSwapClick_def sample_app_def set_a_def set_b_def sample_set_def
        swapped_sets_def array_sort_def swap_compare_def order_or_0_def Let_def
        saveStickerSets_tx_def resolve_def)
  then show ?thesis
    using swap_exchanges_orders[OF h, unfolded b] m by simp
qed

text \<open>
  C2 as stated fails in the store. The store holds \<open>a\<close> (order 0), \<open>b\<close> (order 1)
  and \<open>c\<close> without an order; on mount the listing gives \<open>c\<close> the order of its
  position. Swapping \<open>a\<close> and \<open>b\<close> writes the whole listing: the stored order of
  \<open>c\<close>, which is neither of the two, changes from none to 0.
\<close>

theorem swap_rewrites_unlisted_order_counterexample:
  "map set_id (idb legacy_app) = [''a'', ''b'', ''c''] \<and>
   map order (idb legacy_app) = [Some 0, Some 1, None] \<and>
   map set_id (sets (loadOnMount [RequestSuccess, TransactionComplete] legacy_app))
     = [''c'', ''a'', ''b''] \<and>
   map set_id
     (idb (handleSwapClick ''b'' [RequestSuccess, RequestSuccess, RequestSuccess, TransactionComplete]
        (handleSwapClick ''a'' []
          (loadOnMount [RequestSuccess, TransactionComplete] legacy_app))))
     = [''a'', ''b'', ''c''] \<and>
   map order
     (idb (handleSwapClick ''b'' [RequestSuccess, RequestSuccess, RequestSuccess, TransactionComplete]
        (handleSwapClick ''a'' []
          (loadOnMount [RequestSuccess, TransactionComplete] legacy_app))))
     = [Some 1, Some 0, Some 0]"
  by (simp add: legacy_app_def loadOnMount_def getAllStickerSets_def getAll_sorted_def
      array_sort_def getAll_compare_def with_order_def sample_set_def resolve_def
      handleSwapClick_def swapped_sets_def swap_compare_def order_or_0_def Let_def
      saveStickerSets_tx_def)




section \<open>Import\<close>




lemma clean_from_Keyed:
  "clean_from n (map Keyed xs)
     = Some (map Keyed (map (\<lambda>(k, s). with_order k s) (enumerate n xs)))"
  by (induction xs arbitrary: n) simp_all


text \<open>The orders completed by position, for an array of records.\<close>

lemma ensure_order_Keyed:
  "ensure_order (map Keyed xs)
     = Some (map Keyed (map (\<lambda>(k, s). with_order k s) (enumerate 0 xs)))"
  unfolding ensure_order_def by (rule clean_from_Keyed)


lemma clearAll_committed:
  "tx_commits evs \<Longrightarrow> clearAllStickerSets evs db = \<lparr>settled = Resolved, stored = []\<rparr>"
  by (simp add: clearAllStickerSets_def resolved_iff_commits store_clear_def)

lemma getAll_resolved:
  "fold on_request (delivered evs) Pending = Resolved \<Longrightarrow>
   getAllStickerSets evs db = (Resolved, getAll_sorted db)"
  by (simp add: getAllStickerSets_def)



lemma restore_main:
  assumes c: "tx_commits (clear_events io)"
    and w: "tx_commits (save_events io)"
    and g: "fold on_request (delivered (getAll_events io)) Pending = Resolved"
  shows "handleFileImport (Records (map Keyed xs)) True True io st =
     st\<lparr>sets := getAll_sorted (put_all (map (\<lambda>(k, s). with_order k s) (enumerate 0 xs)) []),
        idb := put_all (map (\<lambda>(k, s). with_order k s) (enumerate 0 xs)) [],
        alerts := alerts st @ [ImportDone True (length xs)]\<rparr>"
proof -
  define ys where "ys = map (\<lambda>(k, s). with_order k s) (enumerate 0 xs)"
  have e: "ensure_order (map Keyed xs) = Some (map Keyed ys)"
    by (simp only: ensure_order_Keyed ys_def)
  have "handleFileImport (Records (map Keyed xs)) True True io st =
     st\<lparr>sets := getAll_sorted (put_all ys []), idb := put_all ys [],
        alerts := alerts st @ [ImportDone True (length xs)]\<rparr>"
  proof (cases "xs = []")
    case True
    then have "ys = []" by (simp add: ys_def)
    then show ?thesis
      using True
      by (simp add: handleFileImport_def Let_def clearAll_committed[OF c] getAll_resolved[OF g]
          put_all_def)
  next
    case False
    then show ?thesis
      by (simp add: handleFileImport_def Let_def clearAll_committed[OF c] e
          saveStickerSets_tx_committed[OF w] getAll_resolved[OF g])
  qed
  then show ?thesis by (simp only: ys_def)
qed




section \<open>Reorder protocol: the selection\<close>

lemma selection_ok_delete:
  "selection_ok st \<Longrightarrow> selection_ok (handleDeleteSet i evs st)"
  by (auto simp: selection_ok_def handleDeleteSet_def Let_def split: promise.splits option.splits)

lemma selection_ok_click:
  "selection_ok st \<Longrightarrow> i \<in> set_id ` set (sets st) \<Longrightarrow> selection_ok (handleSwapClick i evs st)"
  by (auto simp: selection_ok_def handleSwapClick_def Let_def
      split: promise.splits option.splits)

lemma delete_selected:
  "swapSourceId st = Some i \<Longrightarrow> tx_commits evs \<Longrightarrow>
   swapSourceId (handleDeleteSet i evs st) = None \<and>
   i \<notin> set_id ` set (sets (handleDeleteSet i evs st)) \<and>
   i \<notin> set_id ` set (idb (handleDeleteSet i evs st))"
proof -
  assume a: "swapSourceId st = Some i" "tx_commits evs"
  then have "fold on_transaction (delivered evs) Pending = Resolved"
    by (simp add: resolved_iff_commits)
  then show ?thesis
    using a by (auto simp: handleDeleteSet_def Let_def deleteStickerSet_def store_delete_def)
qed

lemma swap_stale_source:
  "swapSourceId st = Some src \<Longrightarrow> src \<noteq> i \<Longrightarrow> src \<notin> set_id ` set (sets st) \<Longrightarrow>
   handleSwapClick i evs st = st\<lparr>swapSourceId := None\<rparr>"
proof -
  assume a: "swapSourceId st = Some src" "src \<noteq> i" "src \<notin> set_id ` set (sets st)"
  then have "findIndex (\<lambda>s. set_id s = src) (sets st) = None"
    by (auto simp: findIndex_None)
  then show ?thesis using a by (simp add: handleSwapClick_def)
qed

text \<open>
  C10, as the code has it. The click and the delete handlers keep the selection
  within the listing: a delete keeps it so, and resets it to none when the deleted
  collection is the selected one, which is then gone from the listing; a click on a
  collection of the listing keeps it so. Where the selection names a collection that
  the listing does not hold, a click on another collection swaps nothing, writes
  nothing and resets the selection.
\<close>

theorem selection_invariant:
  assumes "selection_ok st"
  shows "selection_ok (handleDeleteSet i evs st) \<and>
         (i \<in> set_id ` set (sets st) \<longrightarrow> selection_ok (handleSwapClick i evs st)) \<and>
         (swapSourceId st = Some i \<and> tx_commits evs \<longrightarrow>
            swapSourceId (handleDeleteSet i evs st) = None \<and>
            i \<notin> set_id ` set (sets (handleDeleteSet i evs st))) \<and>
         (\<forall>src. swapSourceId st' = Some src \<and> src \<noteq> j \<and> src \<notin> set_id ` set (sets st') \<longrightarrow>
            handleSwapClick j evs' st' = st'\<lparr>swapSourceId := None\<rparr>)"
proof (intro conjI impI allI)
  show "selection_ok (handleDeleteSet i evs st)"
    using assms by (rule selection_ok_delete)
next
  assume "i \<in> set_id ` set (sets st)"
  with assms show "selection_ok (handleSwapClick i evs st)"
    by (rule selection_ok_click)
next
  assume a: "swapSourceId st = Some i \<and> tx_commits evs"
  then show "swapSourceId (handleDeleteSet i evs st) = None"
    using delete_selected[of st i evs] by simp
  from a show "i \<notin> set_id ` set (sets (handleDeleteSet i evs st))"
    using delete_selected[of st i evs] by simp
next
  fix src
  assume "swapSourceId st' = Some src \<and> src \<noteq> j \<and> src \<notin> set_id ` set (sets st')"
  then show "handleSwapClick j evs' st' = st'\<lparr>swapSourceId := None\<rparr>"
    using swap_stale_source[of st' src j evs'] by simp
qed

text \<open>Deleting the selected collection \<open>a\<close>, and a click while the selection is
  stale.\<close>

theorem selection_invariant_witness:
  "selection_ok sample_app \<and>
   selection_ok (handleDeleteSet ''a'' [RequestSuccess, TransactionComplete] sample_app) \<and>
   swapSourceId (handleDeleteSet ''a'' [RequestSuccess, TransactionComplete] sample_app) = None \<and>
   ''a'' \<notin> set_id ` set (sets (handleDeleteSet ''a'' [RequestSuccess, TransactionComplete] sample_app)) \<and>
   handleSwapClick ''a'' [] (sample_app\<lparr>swapSourceId := Some ''gone''\<rparr>)
     = sample_app\<lparr>swapSourceId := None\<rparr>"
proof -
  have h: "selection_ok sample_app"
    by (simp add: selection_ok_def sample_app_def set_a_def set_b_def sample_set_def)
  have k: "swapSourceId sample_app = Some ''a'' \<and> tx_commits [RequestSuccess, TransactionComplete]"
    by (simp add: sample_app_def)
  note t = selection_invariant[OF h, of "''a''" "[RequestSuccess, TransactionComplete]"]
  have "selection_ok (handleDeleteSet ''a'' [RequestSuccess, TransactionComplete] sample_app)"
    using t by (rule conjunct1)
  moreover have "swapSourceId (handleDeleteSet ''a'' [RequestSuccess, TransactionComplete] sample_app) = None \<and>
     ''a'' \<notin> set_id ` set (sets (handleDeleteSet ''a'' [RequestSuccess, TransactionComplete] sample_app))"
    using t[THEN conjunct2, THEN conjunct2, THEN conjunct1] k by (rule mp)
  moreover have "handleSwapClick ''a'' [] (sample_app\<lparr>swapSourceId := Some ''gone''\<rparr>)
     = sample_app\<lparr>swapSourceId := None\<rparr>"
  proof -
    have g: "swapSourceId (sample_app\<lparr>swapSourceId := Some ''gone''\<rparr>) = Some ''gone'' \<and> ''gone'' \<noteq> ''a'' \<and>
       ''gone'' \<notin> set_id ` set (sets (sample_app\<lparr>swapSourceId := Some ''gone''\<rparr>))"
      by (simp add: sample_app_def set_a_def set_b_def sample_set_def)
    have "\<forall>src. swapSourceId (sample_app\<lparr>swapSourceId := Some ''gone''\<rparr>) = Some src \<and> src \<noteq> ''a'' \<and>
             src \<notin> set_id ` set (sets (sample_app\<lparr>swapSourceId := Some ''gone''\<rparr>)) \<longrightarrow>
           handleSwapClick ''a'' [] (sample_app\<lparr>swapSourceId := Some ''gone''\<rparr>)
             = sample_app\<lparr>swapSourceId := Some ''gone''\<rparr>\<lparr>swapSourceId := None\<rparr>"
      using selection_invariant[OF h, of "''a''" "[]" "sample_app\<lparr>swapSourceId := Some ''gone''\<rparr>" "''a''" "[]"]
      by (rule conjunct2[THEN conjunct2, THEN conjunct2])
    then show ?thesis using g by simp
  qed
  ultimately show ?thesis using h by simp
qed

text \<open>
  C10 as stated fails: the import handler replaces the listing and leaves the
  selection. With \<open>o1\<close> selected, restoring a file without \<open>o1\<close> leaves the
  selection on \<open>o1\<close>, which the listing no longer holds.
\<close>

theorem selection_after_restore_counterexample:
  "selection_ok old_app \<and>
   swapSourceId (handleFileImport (Records imported_file) True True all_succeed old_app) = Some ''o1'' \<and>
   map set_id (sets (handleFileImport (Records imported_file) True True all_succeed old_app))
     = [''n1'', ''n3'', ''n4'', ''n5'', ''n2''] \<and>
   \<not> selection_ok (handleFileImport (Records imported_file) True True all_succeed old_app)"
proof -
  have h: "tx_commits (clear_events all_succeed)" "tx_commits (save_events all_succeed)"
    "fold on_request (delivered (getAll_events all_succeed)) Pending = Resolved"
    by (simp_all add: all_succeed_def resolve_def)
  let ?ys = "map (\<lambda>(k, s). with_order k s)
     (enumerate 0 [sample_set ''n1'' None 11, sample_set ''n2'' (Some 7) 12, sample_set ''n3'' None 13,
        sample_set ''n4'' None 14, sample_set ''n5'' None 15])"
  have "map set_id (getAll_sorted (put_all ?ys [])) = [''n1'', ''n3'', ''n4'', ''n5'', ''n2'']"
    by (simp add: with_order_def sample_set_def put_all_def
        getAll_sorted_def array_sort_def getAll_compare_def)
  moreover from this
  have "set_id ` set (getAll_sorted (put_all ?ys [])) = set [''n1'', ''n3'', ''n4'', ''n5'', ''n2'']"
    by (metis set_map)
  moreover have "handleFileImport (Records imported_file) True True all_succeed old_app =
     old_app\<lparr>sets := getAll_sorted (put_all ?ys []), idb := put_all ?ys [],
        alerts := alerts old_app @ [ImportDone True (length [sample_set ''n1'' None 11,
          sample_set ''n2'' (Some 7) 12, sample_set ''n3'' None 13,
          sample_set ''n4'' None 14, sample_set ''n5'' None 15])]\<rparr>"
    unfolding imported_file_def by (rule restore_main[OF h])
  moreover have "selection_ok old_app" "swapSourceId old_app = Some ''o1''"
    by (simp_all add: selection_ok_def old_app_def sample_set_def)
  ultimately show ?thesis
    by (simp add: selection_ok_def)
qed

section \<open>Image codec\<close>

lemma floor_near_round: "\<bar>\<lfloor>x\<rfloor> - round x\<bar> \<le> 1" for x :: real
  unfolding round_def by linarith

lemma canvas_size_of_nat: "canvas_size (real n) = n"
  by (simp add: canvas_size_def)

lemma canvas_size_near_round:
  "0 \<le> x \<Longrightarrow> \<bar>int (canvas_size x) - round x\<bar> \<le> 1"
  using floor_near_round[of x] by (simp add: canvas_size_def)

lemma scaled_wide:
  "maxWidth < w \<Longrightarrow>
   scaled_dimensions w h maxWidth = (real maxWidth, real h * real maxWidth / real w)"
  by (simp add: scaled_dimensions_def)

lemma scaled_narrow:
  "w \<le> maxWidth \<Longrightarrow> scaled_dimensions w h maxWidth = (real w, real h)"
  by (simp add: scaled_dimensions_def)

lemma canvas_of_scaled:
  "(maxWidth < w \<longrightarrow>
      canvas_size (fst (scaled_dimensions w h maxWidth)) = maxWidth \<and>
      \<bar>int (canvas_size (snd (scaled_dimensions w h maxWidth)))
         - round (real h * real maxWidth / real w)\<bar> \<le> 1) \<and>
   (w \<le> maxWidth \<longrightarrow>
      canvas_size (fst (scaled_dimensions w h maxWidth)) = w \<and>
      canvas_size (snd (scaled_dimensions w h maxWidth)) = h)"
proof (intro conjI impI)
  assume wide: "maxWidth < w"
  show "canvas_size (fst (scaled_dimensions w h maxWidth)) = maxWidth"
    using wide by (simp add: scaled_wide canvas_size_of_nat)
  have "0 \<le> real h * real maxWidth / real w" by simp
  then show "\<bar>int (canvas_size (snd (scaled_dimensions w h maxWidth)))
         - round (real h * real maxWidth / real w)\<bar> \<le> 1"
    using wide by (simp add: scaled_wide canvas_size_near_round)
next
  assume "w \<le> maxWidth"
  then show "canvas_size (fst (scaled_dimensions w h maxWidth)) = w"
    "canvas_size (snd (scaled_dimensions w h maxWidth)) = h"
    by (simp_all add: scaled_narrow canvas_size_of_nat)
qed

lemma compressExistingImage_size:
  assumes "loaded env = Some (w, h)" "has_context env"
  shows "\<exists>e. compressExistingImage dataUrl env maxWidth q = Inr e \<and>
           out_width e = canvas_size (fst (scaled_dimensions w h maxWidth)) \<and>
           out_height e = canvas_size (snd (scaled_dimensions w h maxWidth))"
  using assms by (simp add: compressExistingImage_def Let_def split_beta)

lemma compressImage_size:
  assumes "loaded env = Some (w, h)" "has_context env"
  shows "\<exists>e. compressImage True ftype env maxWidth q = Inr e \<and>
           out_width e = canvas_size (fst (scaled_dimensions w h maxWidth)) \<and>
           out_height e = canvas_size (snd (scaled_dimensions w h maxWidth))"
  using assms by (simp add: compressImage_def Let_def split_beta)

text \<open>
  C8. For a source image of natural width \<open>w\<close> and height \<open>h\<close> that loads, both
  compressImage and compressExistingImage produce an image whose width is
  \<open>maxWidth\<close> and whose height is within one pixel of
  \<open>round (h * maxWidth / w)\<close> when \<open>w > maxWidth\<close>, and whose dimensions are those
  of the source when \<open>w \<le> maxWidth\<close>. (The code does not round: the canvas drops the
  fraction of the quotient.)
\<close>

theorem compression_bound:
  assumes l: "loaded env = Some (w, h)" and c: "has_context env"
  shows "(\<exists>e. compressImage True ftype env maxWidth q = Inr e \<and>
            (maxWidth < w \<longrightarrow> out_width e = maxWidth \<and>
               \<bar>int (out_height e) - round (real h * real maxWidth / real w)\<bar> \<le> 1) \<and>
            (w \<le> maxWidth \<longrightarrow> out_width e = w \<and> out_height e = h)) \<and>
         (\<exists>e. compressExistingImage dataUrl env maxWidth q = Inr e \<and>
            (maxWidth < w \<longrightarrow> out_width e = maxWidth \<and>
               \<bar>int (out_height e) - round (real h * real maxWidth / real w)\<bar> \<le> 1) \<and>
            (w \<le> maxWidth \<longrightarrow> out_width e = w \<and> out_height e = h))"
proof
  obtain e where "compressImage True ftype env maxWidth q = Inr e"
    "out_width e = canvas_size (fst (scaled_dimensions w h maxWidth))"
    "out_height e = canvas_size (snd (scaled_dimensions w h maxWidth))"
    using compressImage_size[OF l c] by blast
  then show "\<exists>e. compressImage True ftype env maxWidth q = Inr e \<and>
            (maxWidth < w \<longrightarrow> out_width e = maxWidth \<and>
               \<bar>int (out_height e) - round (real h * real maxWidth / real w)\<bar> \<le> 1) \<and>
            (w \<le> maxWidth \<longrightarrow> out_width e = w \<and> out_height e = h)"
    using canvas_of_scaled[of maxWidth w h] by simp
next
  obtain e where "compressExistingImage dataUrl env maxWidth q = Inr e"
    "out_width e = canvas_size (fst (scaled_dimensions w h maxWidth))"
    "out_height e = canvas_size (snd (scaled_dimensions w h maxWidth))"
    using compressExistingImage_size[OF l c] by blast
  then show "\<exists>e. compressExistingImage dataUrl env maxWidth q = Inr e \<and>
            (maxWidth < w \<longrightarrow> out_width e = maxWidth \<and>
               \<bar>int (out_height e) - round (real h * real maxWidth / real w)\<bar> \<le> 1) \<and>
            (w \<le> maxWidth \<longrightarrow> out_width e = w \<and> out_height e = h)"
    using canvas_of_scaled[of maxWidth w h] by simp
qed

lemma alpha_scan_full_iff:
  "alpha_scan_full i data = (\<exists>k. i + 4 * k < length data \<and> data ! (i + 4 * k) < 255)"
proof (induction i data rule: alpha_scan_full.induct)
  case (1 i data)
  show ?case
  proof (cases "i < length data")
    case False
    then show ?thesis by (simp add: alpha_scan_full.simps[of i])
  next
    case inb: True
    show ?thesis
    proof (cases "data ! i < 255")
      case True
      then have "i + 4 * 0 < length data \<and> data ! (i + 4 * 0) < 255" using inb by simp
      then have "\<exists>k. i + 4 * k < length data \<and> data ! (i + 4 * k) < 255" by blast
      then show ?thesis using inb True by (simp add: alpha_scan_full.simps[of i])
    next
      case False
      have "alpha_scan_full i data = alpha_scan_full (i + 4) data"
        using inb False by (simp add: alpha_scan_full.simps[of i])
      also have "\<dots> = (\<exists>k. i + 4 + 4 * k < length data \<and> data ! (i + 4 + 4 * k) < 255)"
        using "1.IH"[OF inb False] .
      also have "\<dots> = (\<exists>k. i + 4 * k < length data \<and> data ! (i + 4 * k) < 255)"
      proof
        assume "\<exists>k. i + 4 + 4 * k < length data \<and> data ! (i + 4 + 4 * k) < 255"
        then obtain k where "i + 4 + 4 * k < length data \<and> data ! (i + 4 + 4 * k) < 255" ..
        then have "i + 4 * Suc k < length data \<and> data ! (i + 4 * Suc k) < 255"
          by (simp add: add.assoc)
        then show "\<exists>k. i + 4 * k < length data \<and> data ! (i + 4 * k) < 255" ..
      next
        assume "\<exists>k. i + 4 * k < length data \<and> data ! (i + 4 * k) < 255"
        then obtain k where k: "i + 4 * k < length data \<and> data ! (i + 4 * k) < 255" ..
        then have "k \<noteq> 0" using False by (cases k) auto
        then obtain k' where "k = Suc k'" by (cases k) auto
        then have "i + 4 + 4 * k' < length data \<and> data ! (i + 4 + 4 * k') < 255"
          using k by (simp add: add.assoc)
        then show "\<exists>k. i + 4 + 4 * k < length data \<and> data ! (i + 4 + 4 * k) < 255" ..
      qed
      finally show ?thesis .
    qed
  qed
qed

lemma alpha_scan_sampled_iff:
  "alpha_scan_sampled i data = (\<exists>k. i + 400 * k < length data \<and> data ! (i + 400 * k) < 255)"
proof (induction i data rule: alpha_scan_sampled.induct)
  case (1 i data)
  show ?case
  proof (cases "i < length data")
    case False
    then show ?thesis by (simp add: alpha_scan_sampled.simps[of i])
  next
    case inb: True
    show ?thesis
    proof (cases "data ! i < 255")
      case True
      then have "i + 400 * 0 < length data \<and> data ! (i + 400 * 0) < 255" using inb by simp
      then have "\<exists>k. i + 400 * k < length data \<and> data ! (i + 400 * k) < 255" by blast
      then show ?thesis using inb True by (simp add: alpha_scan_sampled.simps[of i])
    next
      case False
      have "alpha_scan_sampled i data = alpha_scan_sampled (i + 400) data"
        using inb False by (simp add: alpha_scan_sampled.simps[of i])
      also have "\<dots> = (\<exists>k. i + 400 + 400 * k < length data \<and> data ! (i + 400 + 400 * k) < 255)"
        using "1.IH"[OF inb False] .
      also have "\<dots> = (\<exists>k. i + 400 * k < length data \<and> data ! (i + 400 * k) < 255)"
      proof
        assume "\<exists>k. i + 400 + 400 * k < length data \<and> data ! (i + 400 + 400 * k) < 255"
        then obtain k where "i + 400 + 400 * k < length data \<and> data ! (i + 400 + 400 * k) < 255" ..
        then have "i + 400 * Suc k < length data \<and> data ! (i + 400 * Suc k) < 255"
          by (simp add: add.assoc)
        then show "\<exists>k. i + 400 * k < length data \<and> data ! (i + 400 * k) < 255" ..
      next
        assume "\<exists>k. i + 400 * k < length data \<and> data ! (i + 400 * k) < 255"
        then obtain k where k: "i + 400 * k < length data \<and> data ! (i + 400 * k) < 255" ..
        then have "k \<noteq> 0" using False by (cases k) auto
        then obtain k' where "k = Suc k'" by (cases k) auto
        then have "i + 400 + 400 * k' < length data \<and> data ! (i + 400 + 400 * k') < 255"
          using k by (simp add: add.assoc)
        then show "\<exists>k. i + 400 + 400 * k < length data \<and> data ! (i + 400 + 400 * k) < 255" ..
      qed
      finally show ?thesis .
    qed
  qed
qed

lemma hasTransparency_full_iff:
  "hasTransparency_full (Some data) = (\<exists>p. 4 * p + 3 < length data \<and> data ! (4 * p + 3) < 255)"
  unfolding hasTransparency_full_def option.case alpha_scan_full_iff[of 3 data]
  by (simp only: add.commute[of 3])

lemma hasTransparency_iff:
  "hasTransparency (Some data) = (\<exists>p. 400 * p + 3 < length data \<and> data ! (400 * p + 3) < 255)"
  unfolding hasTransparency_def option.case alpha_scan_sampled_iff[of 3 data]
  by (simp only: add.commute[of 3])

lemma compressExistingImage_fullscan_result:
  assumes "loaded env = Some (w, h)" "has_context env"
  shows "compressExistingImage_fullscan dataUrl env maxWidth q =
     Inr \<lparr>mime_type = (if prefix ''data:image/png'' dataUrl \<and> hasTransparency_full (image_data env)
                        then PNG else JPEG),
          out_width = canvas_size (fst (scaled_dimensions w h maxWidth)),
          out_height = canvas_size (snd (scaled_dimensions w h maxWidth)),
          background = (if prefix ''data:image/png'' dataUrl \<and> hasTransparency_full (image_data env)
                        then None else Some White),
          quality = q\<rparr>"
  using assms by (simp add: compressExistingImage_fullscan_def Let_def split_beta)

lemma compressExistingImage_result:
  assumes "loaded env = Some (w, h)" "has_context env"
  shows "compressExistingImage dataUrl env maxWidth q =
     Inr \<lparr>mime_type = (if prefix ''data:image/png'' dataUrl \<and> hasTransparency (image_data env)
                        then PNG else JPEG),
          out_width = canvas_size (fst (scaled_dimensions w h maxWidth)),
          out_height = canvas_size (snd (scaled_dimensions w h maxWidth)),
          background = (if prefix ''data:image/png'' dataUrl \<and> hasTransparency (image_data env)
                        then None else Some White),
          quality = q\<rparr>"
  using assms by (simp add: compressExistingImage_def Let_def split_beta)

lemma compressExistingImage_jpeg_result:
  assumes "loaded env = Some (w, h)" "has_context env"
  shows "compressExistingImage_jpeg dataUrl env maxWidth q =
     Inr \<lparr>mime_type = JPEG,
          out_width = canvas_size (fst (scaled_dimensions w h maxWidth)),
          out_height = canvas_size (snd (scaled_dimensions w h maxWidth)),
          background = Some WarmPaper, quality = q\<rparr>"
  using assms by (simp add: compressExistingImage_jpeg_def Let_def split_beta)

lemma hasTransparency_full_case:
  "hasTransparency_full d =
     (case d of None \<Rightarrow> True
      | Some data \<Rightarrow> \<exists>p. 4 * p + 3 < length data \<and> data ! (4 * p + 3) < 255)"
proof (cases d)
  case None
  then show ?thesis by (simp add: hasTransparency_full_def)
next
  case (Some data)
  then show ?thesis by (simp only: hasTransparency_full_iff option.case)
qed

lemma hasTransparency_case:
  "hasTransparency d =
     (case d of None \<Rightarrow> True
      | Some data \<Rightarrow> \<exists>p. 400 * p + 3 < length data \<and> data ! (400 * p + 3) < 255)"
proof (cases d)
  case None
  then show ?thesis by (simp add: hasTransparency_def)
next
  case (Some data)
  then show ?thesis by (simp only: hasTransparency_iff option.case)
qed

text \<open>
  C9, as the code has it. The variants that detect transparency encode a PNG data
  URL losslessly as PNG exactly when the pixels of the drawn canvas cannot be read
  (\<open>getImageData\<close> throws, and the scan answers that the image is transparent) or
  their scan of the alpha bytes finds one below 255; a PNG whose pixels are read
  and whose scan finds none, and every input that is not a PNG, is flattened on
  white and encoded as JPEG at the quality factor. The scan of part_009 reads the
  alpha byte of every pixel; the scan of imageCompression.ts (lines 150-166) reads
  that of every hundredth pixel. The later module of imageCompression.ts (lines
  258-329) flattens every input on the page colour and encodes it as JPEG.
\<close>

theorem alpha_decision:
  assumes l: "loaded env = Some (w, h)" and c: "has_context env"
  shows "(\<exists>e. compressExistingImage_fullscan dataUrl env maxWidth q = Inr e \<and>
            (mime_type e = PNG) =
              (prefix ''data:image/png'' dataUrl \<and>
               (case image_data env of None \<Rightarrow> True
                | Some data \<Rightarrow> \<exists>p. 4 * p + 3 < length data \<and> data ! (4 * p + 3) < 255)) \<and>
            (mime_type e = PNG \<longrightarrow> background e = None) \<and>
            (mime_type e \<noteq> PNG \<longrightarrow>
               mime_type e = JPEG \<and> background e = Some White \<and> quality e = q)) \<and>
         (\<exists>e. compressExistingImage dataUrl env maxWidth q = Inr e \<and>
            (mime_type e = PNG) =
              (prefix ''data:image/png'' dataUrl \<and>
               (case image_data env of None \<Rightarrow> True
                | Some data \<Rightarrow> \<exists>p. 400 * p + 3 < length data \<and> data ! (400 * p + 3) < 255)) \<and>
            (mime_type e = PNG \<longrightarrow> background e = None) \<and>
            (mime_type e \<noteq> PNG \<longrightarrow>
               mime_type e = JPEG \<and> background e = Some White \<and> quality e = q)) \<and>
         (\<exists>e. compressExistingImage_jpeg dataUrl env maxWidth q = Inr e \<and>
            mime_type e = JPEG \<and> background e = Some WarmPaper \<and> quality e = q)"
proof (intro conjI)
  let ?P = "prefix ''data:image/png'' dataUrl \<and> hasTransparency_full (image_data env)"
  have f: "?P = (prefix ''data:image/png'' dataUrl \<and>
               (case image_data env of None \<Rightarrow> True
                | Some data \<Rightarrow> \<exists>p. 4 * p + 3 < length data \<and> data ! (4 * p + 3) < 255))"
    by (simp only: hasTransparency_full_case[of "image_data env"])
  show "\<exists>e. compressExistingImage_fullscan dataUrl env maxWidth q = Inr e \<and>
            (mime_type e = PNG) =
              (prefix ''data:image/png'' dataUrl \<and>
               (case image_data env of None \<Rightarrow> True
                | Some data \<Rightarrow> \<exists>p. 4 * p + 3 < length data \<and> data ! (4 * p + 3) < 255)) \<and>
            (mime_type e = PNG \<longrightarrow> background e = None) \<and>
            (mime_type e \<noteq> PNG \<longrightarrow>
               mime_type e = JPEG \<and> background e = Some White \<and> quality e = q)"
    unfolding compressExistingImage_fullscan_result[OF l c] f[symmetric]
    by (cases ?P) simp_all
next
  let ?P = "prefix ''data:image/png'' dataUrl \<and> hasTransparency (image_data env)"
  have f: "?P = (prefix ''data:image/png'' dataUrl \<and>
               (case image_data env of None \<Rightarrow> True
                | Some data \<Rightarrow> \<exists>p. 400 * p + 3 < length data \<and> data ! (400 * p + 3) < 255))"
    by (simp only: hasTransparency_case[of "image_data env"])
  show "\<exists>e. compressExistingImage dataUrl env maxWidth q = Inr e \<and>
            (mime_type e = PNG) =
              (prefix ''data:image/png'' dataUrl \<and>
               (case image_data env of None \<Rightarrow> True
                | Some data \<Rightarrow> \<exists>p. 400 * p + 3 < length data \<and> data ! (400 * p + 3) < 255)) \<and>
            (mime_type e = PNG \<longrightarrow> background e = None) \<and>
            (mime_type e \<noteq> PNG \<longrightarrow>
               mime_type e = JPEG \<and> background e = Some White \<and> quality e = q)"
    unfolding compressExistingImage_result[OF l c] f[symmetric]
    by (cases ?P) simp_all
next
  show "\<exists>e. compressExistingImage_jpeg dataUrl env maxWidth q = Inr e \<and>
            mime_type e = JPEG \<and> background e = Some WarmPaper \<and> quality e = q"
    unfolding compressExistingImage_jpeg_result[OF l c] by simp
qed

text \<open>
  C9 as stated fails: the later module encodes a PNG of one transparent pixel as JPEG
  on the page colour, and the sampled scan misses the transparent second pixel of a
  PNG of two pixels, which is then flattened on white.
\<close>

theorem transparent_png_flattened_counterexample:
  "prefix ''data:image/png'' png_url \<and>
   image_data clear_pixel = Some [0, 0, 0, 0] \<and>
   compressExistingImage_jpeg png_url clear_pixel 800 (85 / 100)
     = Inr \<lparr>mime_type = JPEG, out_width = 1, out_height = 1,
            background = Some WarmPaper, quality = 85 / 100\<rparr> \<and>
   image_data two_pixels = Some [10, 20, 30, 255, 0, 0, 0, 0] \<and>
   compressExistingImage png_url two_pixels 800 (85 / 100)
     = Inr \<lparr>mime_type = JPEG, out_width = 2, out_height = 1,
            background = Some White, quality = 85 / 100\<rparr>"
  by (simp add: png_url_def clear_pixel_def two_pixels_def compressExistingImage_jpeg_def
      compressExistingImage_def scaled_dimensions_def canvas_size_def hasTransparency_def)

text \<open>The fifth scenario of the specification (2000 by 1000 at \<open>maxWidth\<close> 800 gives
  width 800 and height 400) and an image narrower than \<open>maxWidth\<close>.\<close>

theorem compression_bound_witness:
  "(\<exists>e. compressExistingImage png_url large_image 800 (85 / 100) = Inr e \<and>
        out_width e = 800 \<and> \<bar>int (out_height e) - 400\<bar> \<le> 1) \<and>
   (\<exists>e. compressImage True ''image/png'' small_image 800 (85 / 100) = Inr e \<and>
        out_width e = 300 \<and> out_height e = 200)"
proof -
  have h: "loaded large_image = Some (2000, 1000)" "has_context large_image"
    by (simp_all add: large_image_def)
  have k: "loaded small_image = Some (300, 200)" "has_context small_image"
    by (simp_all add: small_image_def)
  have r: "round (real 1000 * real 800 / real 2000) = 400"
    by simp
  have "\<exists>e. compressExistingImage png_url large_image 800 (85 / 100) = Inr e \<and>
        out_width e = 800 \<and> \<bar>int (out_height e) - 400\<bar> \<le> 1"
    using compression_bound[OF h, of "''image/png''" 800 "85 / 100" png_url, THEN conjunct2]
    unfolding r by simp
  moreover have "\<exists>e. compressImage True ''image/png'' small_image 800 (85 / 100) = Inr e \<and>
        out_width e = 300 \<and> out_height e = 200"
    using compression_bound[OF k, of "''image/png''" 800 "85 / 100" png_url, THEN conjunct1]
    by simp
  ultimately show ?thesis ..
qed

text \<open>The three variants on the PNG of two pixels whose second pixel is transparent,
  and the two detecting variants on a PNG whose pixels cannot be read.\<close>

theorem alpha_decision_witness:
  "(\<exists>e. compressExistingImage_fullscan png_url two_pixels 800 (85 / 100) = Inr e \<and>
        mime_type e = PNG \<and> background e = None) \<and>
   (\<exists>e. compressExistingImage png_url two_pixels 800 (85 / 100) = Inr e \<and>
        mime_type e = JPEG \<and> background e = Some White) \<and>
   (\<exists>e. compressExistingImage_jpeg png_url two_pixels 800 (85 / 100) = Inr e \<and>
        mime_type e = JPEG \<and> background e = Some WarmPaper) \<and>
   image_data large_image = None \<and>
   (\<exists>e. compressExistingImage_fullscan png_url large_image 800 (85 / 100) = Inr e \<and>
        mime_type e = PNG \<and> background e = None) \<and>
   (\<exists>e. compressExistingImage png_url large_image 800 (85 / 100) = Inr e \<and>
        mime_type e = PNG \<and> background e = None)"
proof -
  let ?data = "[10, 20, 30, 255, 0, 0, 0, 0] :: 8 word list"
  have h: "loaded two_pixels = Some (2, 1)" "has_context two_pixels"
    by (simp_all add: two_pixels_def)
  have d: "image_data two_pixels = Some ?data" by (simp add: two_pixels_def)
  have k: "loaded large_image = Some (2000, 1000)" "has_context large_image"
    by (simp_all add: large_image_def)
  have n: "image_data large_image = None" by (simp add: large_image_def)
  have u: "prefix ''data:image/png'' png_url" by (simp add: png_url_def)
  have "4 * 1 + 3 < length ?data \<and> ?data ! (4 * 1 + 3) < 255" by simp
  then have full: "\<exists>p. 4 * p + 3 < length ?data \<and> ?data ! (4 * p + 3) < 255" by blast
  have sampled: "\<not> (\<exists>p. 400 * p + 3 < length ?data \<and> ?data ! (400 * p + 3) < 255)"
  proof
    assume "\<exists>p. 400 * p + 3 < length ?data \<and> ?data ! (400 * p + 3) < 255"
    then obtain p where p: "400 * p + 3 < length ?data" "?data ! (400 * p + 3) < 255" by blast
    then have "p = 0" by simp
    then show False using p(2) by simp
  qed
  note t = alpha_decision[OF h, of png_url 800 "85 / 100", unfolded d option.case]
  note v = alpha_decision[OF k, of png_url 800 "85 / 100", unfolded n option.case]
  have "\<exists>e. compressExistingImage_fullscan png_url two_pixels 800 (85 / 100) = Inr e \<and>
        mime_type e = PNG \<and> background e = None"
    using t[THEN conjunct1] u full by auto
  moreover have "\<exists>e. compressExistingImage png_url two_pixels 800 (85 / 100) = Inr e \<and>
        mime_type e = JPEG \<and> background e = Some White"
    using t[THEN conjunct2, THEN conjunct1] u sampled by auto
  moreover have "\<exists>e. compressExistingImage_jpeg png_url two_pixels 800 (85 / 100) = Inr e \<and>
        mime_type e = JPEG \<and> background e = Some WarmPaper"
    using t[THEN conjunct2, THEN conjunct2] by auto
  moreover have "\<exists>e. compressExistingImage_fullscan png_url large_image 800 (85 / 100) = Inr e \<and>
        mime_type e = PNG \<and> background e = None"
    using v[THEN conjunct1] u by auto
  moreover have "\<exists>e. compressExistingImage png_url large_image 800 (85 / 100) = Inr e \<and>
        mime_type e = PNG \<and> background e = None"
    using v[THEN conjunct2, THEN conjunct1] u by auto
  ultimately show ?thesis using n by blast
qed

section \<open>Sync service\<close>

lemma choose_content_truncated:
  "truncated file \<Longrightarrow>
   choose_content net file =
     (case get_raw net (raw_url file) of
        Throws nm msg \<Rightarrow> (Inl (Native nm msg), [Fetch (GetRaw (raw_url file))])
      | Response st text \<Rightarrow>
          if \<not> response_ok st
          then (Inl (RawFetchFailed st), [Fetch (GetRaw (raw_url file))])
          else (Inr text, [Fetch (GetRaw (raw_url file))]))"
  by (simp add: choose_content_def)

lemma download_gist_truncated:
  assumes m: "get_gist net g = Response st (Some file)" and ok: "response_ok st"
    and tr: "truncated file"
  shows "(case result (download_gist js net g s) of Inl e \<Rightarrow> Inl (download_catch e) | Inr xs \<Rightarrow> Inr xs)
           = from_raw js (get_raw net (raw_url file)) \<and>
         effects (download_gist js net g s) = [Fetch (GetGist g), Fetch (GetRaw (raw_url file))] \<and>
         after (download_gist js net g s) = s"
  using m ok tr
  by (simp add: download_gist_def choose_content_truncated from_raw_def
      split: fetched.splits sum.splits)

lemma download_cached:
  assumes "\<not> falsy (token s)" "gistId s = Some g" "g \<noteq> []"
  shows "download js net s =
     \<lparr>result = (case result (download_gist js net g s) of
                   Inl e \<Rightarrow> Inl (download_catch e) | Inr xs \<Rightarrow> Inr xs),
      after = after (download_gist js net g s),
      effects = effects (download_gist js net g s)\<rparr>"
proof -
  have "\<not> falsy (gistId s)" using assms by (simp add: falsy_def)
  then show ?thesis using assms by (simp add: download_def Let_def)
qed

lemma download_discovered:
  assumes "\<not> falsy (token s)" "falsy (gistId s)"
    "list_gists net = Response stl gists" "response_ok stl"
    "find (\<lambda>x. description x = backup_description) gists = Some found"
    "gist_id found = g" "g \<noteq> []"
  shows "download js net s =
     \<lparr>result = (case result (download_gist js net g (s\<lparr>gistId := Some g\<rparr>)) of
                   Inl e \<Rightarrow> Inl (download_catch e) | Inr xs \<Rightarrow> Inr xs),
      after = after (download_gist js net g (s\<lparr>gistId := Some g\<rparr>)),
      effects = Fetch ListGists # effects (download_gist js net g (s\<lparr>gistId := Some g\<rparr>))\<rparr>"
  using assms by (simp add: download_def findGistByDescription_def Let_def)

text \<open>
  C4. Let the service be logged in and let download reach a gist, by its cached id or
  by the discovery scan, whose file is marked truncated. Then download requests the
  raw URL of the file, and its result is determined by the answer to that request
  alone (the embedded content does not occur in it): the failure of the request, or
  the reading of the raw text. In particular a non-empty catalog that download
  returns is the parse of the raw text.
\<close>

theorem download_truncated_refetches:
  assumes t: "\<not> falsy (token s)"
    and located:
      "gistId s = Some g \<or>
       (falsy (gistId s) \<and> list_gists net = Response stl gists \<and> response_ok stl \<and>
        find (\<lambda>x. description x = backup_description) gists = Some found \<and> gist_id found = g)"
    and g: "g \<noteq> []"
    and m: "get_gist net g = Response st (Some file)" and ok: "response_ok st"
    and tr: "truncated file"
  shows "result (download js net s) = from_raw js (get_raw net (raw_url file)) \<and>
         Fetch (GetRaw (raw_url file)) \<in> set (effects (download js net s)) \<and>
         (\<forall>xs. result (download js net s) = Inr xs \<and> xs \<noteq> [] \<longrightarrow>
            (\<exists>st' text. get_raw net (raw_url file) = Response st' text \<and> response_ok st' \<and>
               json_parse js text = Inr (JArray xs)))"
proof -
  have r: "result (download js net s) = from_raw js (get_raw net (raw_url file))"
    and e: "Fetch (GetRaw (raw_url file)) \<in> set (effects (download js net s))"
  proof -
    from located
    have "result (download js net s) = from_raw js (get_raw net (raw_url file)) \<and>
          Fetch (GetRaw (raw_url file)) \<in> set (effects (download js net s))"
    proof
      assume c: "gistId s = Some g"
      show ?thesis
        using download_gist_truncated[OF m ok tr, of js s]
        by (simp add: download_cached[OF t c g])
    next
      assume d: "falsy (gistId s) \<and> list_gists net = Response stl gists \<and> response_ok stl \<and>
        find (\<lambda>x. description x = backup_description) gists = Some found \<and> gist_id found = g"
      then have "download js net s =
         \<lparr>result = (case result (download_gist js net g (s\<lparr>gistId := Some g\<rparr>)) of
                       Inl e \<Rightarrow> Inl (download_catch e) | Inr xs \<Rightarrow> Inr xs),
          after = after (download_gist js net g (s\<lparr>gistId := Some g\<rparr>)),
          effects = Fetch ListGists # effects (download_gist js net g (s\<lparr>gistId := Some g\<rparr>))\<rparr>"
        using download_discovered[OF t _ _ _ _ _ g, of net stl gists found js] by blast
      then show ?thesis
        using download_gist_truncated[OF m ok tr, of js "s\<lparr>gistId := Some g\<rparr>"] by simp
    qed
    then show "result (download js net s) = from_raw js (get_raw net (raw_url file))"
      and "Fetch (GetRaw (raw_url file)) \<in> set (effects (download js net s))" by simp_all
  qed
  have p: "\<forall>xs. from_raw js (get_raw net (raw_url file)) = Inr xs \<and> xs \<noteq> [] \<longrightarrow>
            (\<exists>st' text. get_raw net (raw_url file) = Response st' text \<and> response_ok st' \<and>
               json_parse js text = Inr (JArray xs))"
    by (auto simp: from_raw_def read_content_def parse_content_def
        split: fetched.splits sum.splits if_splits json.splits prod.splits)
  show ?thesis using r e p by simp
qed

text \<open>The white space removed by \<open>trim\<close> includes the no-break space and the byte
  order mark.\<close>

lemma trim_unicode_space:
  "trim ([CHR 0xC2, CHR 0xA0, CHR 0x0A] @ ''[1]'' @ [CHR 0x20, CHR 0xEF, CHR 0xBB, CHR 0xBF])
     = ''[1]''"
  by (simp add: trim_def white_space_def strip_start.simps)

lemma strip_start_none:
  "find (\<lambda>w. w \<noteq> [] \<and> prefix w c) ws = None \<Longrightarrow> strip_start ws c = c"
  by (simp add: strip_start.simps[of ws c])

lemma trim_sample: "trim ''[1]'' = ''[1]''"
proof -
  have a: "strip_start white_space ''[1]'' = ''[1]''"
    by (rule strip_start_none) (simp add: white_space_def)
  have b: "strip_start (map rev white_space) (rev ''[1]'') = rev ''[1]''"
    by (rule strip_start_none) (simp add: white_space_def)
  show ?thesis unfolding trim_def a b by simp
qed

text \<open>A gist whose embedded content \<open>[1\<close> is a strict prefix of its raw content
  \<open>[1]\<close>: download returns the parse of the raw content.\<close>

theorem download_truncated_refetches_witness:
  "content truncated_file = ''[1'' \<and>
   get_raw sample_network (raw_url truncated_file) = Response 200 ''[1]'' \<and>
   result (download sample_js sample_network sample_service) = Inr [JNumber 1] \<and>
   Fetch (GetRaw (raw_url truncated_file))
     \<in> set (effects (download sample_js sample_network sample_service))"
proof -
  have h: "\<not> falsy (token sample_service)"
    "gistId sample_service = Some ''gist1'' \<or>
       (falsy (gistId sample_service) \<and> list_gists sample_network = Response 200 [] \<and> response_ok 200 \<and>
        find (\<lambda>x. description x = backup_description) [] = Some \<lparr>gist_id = ''gist1'', description = []\<rparr> \<and>
        gist_id \<lparr>gist_id = ''gist1'', description = []\<rparr> = ''gist1'')"
    "''gist1'' \<noteq> []"
    "get_gist sample_network ''gist1'' = Response 200 (Some truncated_file)"
    "response_ok 200" "truncated truncated_file"
    by (simp_all add: sample_service_def sample_network_def truncated_file_def falsy_def
        response_ok_def)
  have f: "from_raw sample_js (get_raw sample_network (raw_url truncated_file)) = Inr [JNumber 1]"
    by (simp add: from_raw_def sample_network_def response_ok_def read_content_def
        trim_sample parse_content_def sample_js_def sample_parse_def)
  have "content truncated_file = ''[1''" by (simp add: truncated_file_def)
  moreover have "get_raw sample_network (raw_url truncated_file) = Response 200 ''[1]''"
    by (simp add: sample_network_def)
  ultimately show ?thesis
    using download_truncated_refetches[OF h, of sample_js] f by simp
qed

lemma sizeInMB_over_10: "(sizeInMB c > 10) = (length c > 10 * 1024 * 1024)"
  by (simp add: sizeInMB_def field_simps)

lemma sizeInMB_over_5: "(sizeInMB c > 5) = (length c > 5 * 1024 * 1024)"
  by (simp add: sizeInMB_def field_simps)

lemma upload_request_effects:
  "\<exists>r. effects (upload_request net c s) = [Fetch r] \<and>
        (r = CreateGist c \<or> (\<exists>g. r = UpdateGist g c))"
  by (auto simp: upload_request_def createGist_def updateGist_def
      split: option.splits fetched.splits)

lemma upload_catch_not_size: "upload_catch e \<noteq> TooLarge mb"
  by (simp add: upload_catch_def)

text \<open>
  C5. Let the service be logged in and let the catalog serialize to \<open>c\<close> (the
  check of lines 440-444 passing). When \<open>c\<close> has more than 10 MiB, upload rejects
  with the size-limit error and has made no request and changed nothing. When \<open>c\<close>
  has more than 5 MiB and at most 10 MiB, upload warns and then makes its one
  request; its result is the result of that request, and is never the size-limit
  error.
\<close>

theorem upload_size_limits:
  assumes t: "\<not> falsy (token s)" and c: "serialize js stickerSets = Inr c"
  shows "(10 * 1024 * 1024 < length c \<longrightarrow>
            upload js net stickerSets s
              = \<lparr>result = Inl (TooLarge (sizeInMB c)), after = s, effects = []\<rparr>) \<and>
         (5 * 1024 * 1024 < length c \<and> length c \<le> 10 * 1024 * 1024 \<longrightarrow>
            upload js net stickerSets s
              = \<lparr>result = (case result (upload_request net c s) of
                             Inl e \<Rightarrow> Inl (upload_catch e) | Inr u \<Rightarrow> Inr u),
                 after = after (upload_request net c s),
                 effects = SizeWarning # effects (upload_request net c s)\<rparr> \<and>
            (\<exists>r. effects (upload js net stickerSets s) = [SizeWarning, Fetch r]) \<and>
            (\<forall>mb. result (upload js net stickerSets s) \<noteq> Inl (TooLarge mb)))"
proof (intro conjI impI)
  assume "10 * 1024 * 1024 < length c"
  then show "upload js net stickerSets s
      = \<lparr>result = Inl (TooLarge (sizeInMB c)), after = s, effects = []\<rparr>"
    using t c by (simp add: upload_def sizeInMB_over_10)
next
  assume a: "5 * 1024 * 1024 < length c \<and> length c \<le> 10 * 1024 * 1024"
  then show u: "upload js net stickerSets s
      = \<lparr>result = (case result (upload_request net c s) of
                     Inl e \<Rightarrow> Inl (upload_catch e) | Inr u \<Rightarrow> Inr u),
         after = after (upload_request net c s),
         effects = SizeWarning # effects (upload_request net c s)\<rparr>"
    using t c by (simp add: upload_def Let_def sizeInMB_over_10 sizeInMB_over_5)
  show "\<exists>r. effects (upload js net stickerSets s) = [SizeWarning, Fetch r]"
    unfolding u using upload_request_effects[of net c s] by auto
  show "\<forall>mb. result (upload js net stickerSets s) \<noteq> Inl (TooLarge mb)"
    unfolding u by (simp add: upload_catch_not_size split: sum.splits)
qed

text \<open>The second scenario of the specification, a catalog of 11 MiB, and a catalog of
  6 MiB.\<close>

theorem upload_size_limits_witness:
  "upload (js_of_size 11534336) sample_network [] sample_service
     = \<lparr>result = Inl (TooLarge 11), after = sample_service, effects = []\<rparr> \<and>
   upload (js_of_size 6291456) sample_network [] sample_service
     = \<lparr>result = Inr (), after = sample_service,
        effects = [SizeWarning, Fetch (UpdateGist ''gist1'' (replicate 6291456 (CHR ''x'')))]\<rparr>"
proof -
  have t: "\<not> falsy (token sample_service)"
    by (simp add: sample_service_def falsy_def)
  have c: "serialize (js_of_size n) [] = Inr (replicate n (CHR ''x''))" for n
    by (simp add: serialize_def js_of_size_def)
  have big: "10 * 1024 * 1024 < length (replicate 11534336 (CHR ''x''))" by simp
  have mid: "5 * 1024 * 1024 < length (replicate 6291456 (CHR ''x'')) \<and>
      length (replicate 6291456 (CHR ''x'')) \<le> 10 * 1024 * 1024" by simp
  have sz: "sizeInMB (replicate 11534336 (CHR ''x'')) = 11"
    by (simp add: sizeInMB_def)
  have rq: "upload_request sample_network (replicate 6291456 (CHR ''x'')) sample_service
      = \<lparr>result = Inr (), after = sample_service,
         effects = [Fetch (UpdateGist ''gist1'' (replicate 6291456 (CHR ''x'')))]\<rparr>"
    by (simp add: upload_request_def updateGist_def sample_network_def sample_service_def
        response_ok_def)
  have "upload (js_of_size 11534336) sample_network [] sample_service
     = \<lparr>result = Inl (TooLarge 11), after = sample_service, effects = []\<rparr>"
    using upload_size_limits[OF t c, of 11534336 sample_network, THEN conjunct1] big sz
    by simp
  moreover have "upload (js_of_size 6291456) sample_network [] sample_service
     = \<lparr>result = Inr (), after = sample_service,
        effects = [SizeWarning, Fetch (UpdateGist ''gist1'' (replicate 6291456 (CHR ''x'')))]\<rparr>"
    using upload_size_limits[OF t c, of 6291456 sample_network, THEN conjunct2] mid rq
    by simp
  ultimately show ?thesis ..
qed

end
